theory Spec2Isabelle
  imports Complex_Main "HOL-Library.Signed_Division"
begin

section \<open>Data model\<close>

text \<open>
  JavaScript numbers that hold tick indexes are modelled as \<open>int\<close>: tick indexes are
  32-bit values, far inside the range where \<open>Math.floor(a / b)\<close> on doubles is the integer
  floor division \<open>a div b\<close>. \<open>BN\<close> values (square-root prices, liquidity, token amounts) are
  arbitrary-precision integers, so \<open>int\<close>; \<open>BN.add\<close> and \<open>BN.sub\<close> never raise.
  \<open>Decimal\<close> values are modelled as exact rationals, \<open>Decimal.add\<close> as \<open>+\<close>.
\<close>

datatype error =
    Sdk_error     \<comment> \<open>an exception raised inside a collaborator call\<close>
  | Type_error    \<comment> \<open>JavaScript TypeError: a method call on \<open>undefined\<close>\<close>
  | Not_modelled  \<comment> \<open>the source hands \<open>NaN\<close> or \<open>undefined\<close> to the SDK; what happens then
                      is decided outside this repository\<close>

record TickData =
  initialized :: bool
  liquidityNet :: int

record TickArrayData =
  startTickIndex :: int
  ticks :: "TickData list"

record WhirlpoolData =
  tickSpacing :: int
  tickCurrentIndex :: int
  sqrtPrice :: int
  liquidity :: int

record TradableAmount =
  tickIndex :: int
  price :: rat
  amountA :: rat
  amountB :: rat

text \<open>
  \<open>TradableAmounts\<close> and \<open>TickArrayTradableAmounts\<close> of the source have the same three
  fields and differ in the element type only.
\<close>

record 'r TradableAmounts =
  upward :: "'r list"
  downward :: "'r list"
  error :: bool

record 'pk TickArrayTradableAmount =
  tickArrayPubkey :: 'pk
  tickArrayStartIndex :: int
  tickArrayStartPrice :: rat
  tickArrayData :: "TickArrayData option"
  amountA :: rat
  amountB :: rat

section \<open>Collaborators\<close>

text \<open>
  The fixed-point math of the SDK, the decimal helpers and the protocol's tick bounds are
  not part of the repository; the simulators take them as a parameter. A call of the SDK
  math may raise, so these functions return \<open>error + _\<close>.
\<close>

record collaborators =
  tickIndexToSqrtPriceX64 :: "int \<Rightarrow> error + int"
  tickIndexToPrice :: "int \<Rightarrow> nat \<Rightarrow> nat \<Rightarrow> error + rat"
  getAmountDeltaA :: "int \<Rightarrow> int \<Rightarrow> int \<Rightarrow> bool \<Rightarrow> error + int"
  getAmountDeltaB :: "int \<Rightarrow> int \<Rightarrow> int \<Rightarrow> bool \<Rightarrow> error + int"
  toFixedDecimal :: "rat \<Rightarrow> nat \<Rightarrow> rat"
  fromBN :: "int \<Rightarrow> nat \<Rightarrow> rat"
  MIN_TICK_INDEX :: int
  MAX_TICK_INDEX :: int

text \<open>Modelled from the spec: \<open>TICK_ARRAY_SIZE\<close> of the SDK, the number of ticks in a bucket.\<close>

definition TICK_ARRAY_SIZE :: int where
  "TICK_ARRAY_SIZE = 88"

text \<open>
  Modelled from the spec: \<open>TickUtil.getStartTickIndex\<close> of the SDK, the floor-division
  alignment of a tick index to \<open>tickSpacing * TICK_ARRAY_SIZE\<close>.
\<close>

definition getStartTickIndex :: "int \<Rightarrow> int \<Rightarrow> int" where
  "getStartTickIndex t ts = (t div (ts * TICK_ARRAY_SIZE)) * (ts * TICK_ARRAY_SIZE)"

text \<open>
  Modelled from the spec: \<open>TickArrayUtil.getTickFromArray\<close> of the SDK, the record of the
  tick in a loaded bucket, or the implicit initialized zero-net record when the bucket's
  sequence has no record at that position.
\<close>

definition getTickFromArray :: "TickArrayData \<Rightarrow> int \<Rightarrow> int \<Rightarrow> TickData" where
  "getTickFromArray a t ts =
     (let realIndex = (t - startTickIndex a) div ts
      in if 0 \<le> realIndex \<and> nat realIndex < length (ticks a)
         then ticks a ! nat realIndex
         else \<lparr>initialized = True, liquidityNet = 0\<rparr>)"

section \<open>Tick lookup\<close>

text \<open>\<open>getTick\<close>: the first loaded bucket whose start index matches; \<open>None\<close> is \<open>undefined\<close>.\<close>

fun getTick :: "int \<Rightarrow> int \<Rightarrow> TickArrayData option list \<Rightarrow> TickData option" where
  "getTick t ts [] = None"
| "getTick t ts (tickarray # rest) =
     (case tickarray of
        None \<Rightarrow> getTick t ts rest
      | Some a \<Rightarrow>
          if startTickIndex a = getStartTickIndex t ts
          then Some (getTickFromArray a t ts)
          else getTick t ts rest)"

section \<open>Per-step simulator\<close>

text \<open>
  The six collaborator calls every loop body makes for a candidate tick, in the order of
  the source; the first one that raises decides the outcome. The result is
  \<open>(nextSqrtPrice, nextPrice, amountA, amountB)\<close>.
\<close>

definition step_amounts ::
  "collaborators \<Rightarrow> nat \<Rightarrow> nat \<Rightarrow> int \<Rightarrow> int \<Rightarrow> int \<Rightarrow> bool \<Rightarrow> bool
     \<Rightarrow> error + (int \<times> rat \<times> rat \<times> rat)" where
  "step_amounts m decimalsA decimalsB sqrtP liq nextTickIndex roundUpA roundUpB =
     (case tickIndexToSqrtPriceX64 m nextTickIndex of
        Inl e \<Rightarrow> Inl e
      | Inr nextSqrtPrice \<Rightarrow>
     (case tickIndexToPrice m nextTickIndex decimalsA decimalsB of
        Inl e \<Rightarrow> Inl e
      | Inr p \<Rightarrow>
     (case getAmountDeltaA m sqrtP nextSqrtPrice liq roundUpA of
        Inl e \<Rightarrow> Inl e
      | Inr deltaA \<Rightarrow>
     (case getAmountDeltaB m sqrtP nextSqrtPrice liq roundUpB of
        Inl e \<Rightarrow> Inl e
      | Inr deltaB \<Rightarrow>
          Inr (nextSqrtPrice, toFixedDecimal m p decimalsB,
               fromBN m deltaA decimalsA, fromBN m deltaB decimalsB)))))"

text \<open>
  The upward loop of \<open>listTradableAmounts\<close>, from iteration \<open>i\<close> with the working state
  \<open>(tick, sqrtP, liq)\<close>; the result is the list of records pushed from there on.
\<close>

function upwardTradableAmount ::
  "collaborators \<Rightarrow> int \<Rightarrow> TickArrayData option list \<Rightarrow> nat \<Rightarrow> nat \<Rightarrow> int
     \<Rightarrow> nat \<Rightarrow> int \<Rightarrow> int \<Rightarrow> int \<Rightarrow> error + TradableAmount list" where
  "upwardTradableAmount m ts tickArrays decimalsA decimalsB upperInit i tick sqrtP liq =
     (if i < 10 then
        let nextTick = getTick (upperInit + int i * ts) ts tickArrays;
            nextTickIndex = (if nextTick = None then upperInit + int i * ts - 1
                             else upperInit + int i * ts)
        in if nextTickIndex \<le> tick then Inr []
           else
             (case step_amounts m decimalsA decimalsB sqrtP liq nextTickIndex False True of
                Inl e \<Rightarrow> Inl e
              | Inr (nextSqrtPrice, nextPrice, a, b) \<Rightarrow>
                  let r = \<lparr>tickIndex = nextTickIndex, price = nextPrice,
                           amountA = a, amountB = b\<rparr>
                  in (case nextTick of
                        None \<Rightarrow> Inr [r]
                      | Some t \<Rightarrow>
                          (case upwardTradableAmount m ts tickArrays decimalsA decimalsB
                                  upperInit (i + 1) nextTickIndex nextSqrtPrice
                                  (liq + liquidityNet t) of
                             Inl e \<Rightarrow> Inl e
                           | Inr rest \<Rightarrow> Inr (r # rest))))
      else Inr [])"
  by pat_completeness auto
termination
  by (relation "measure (\<lambda>(m, ts, tickArrays, decimalsA, decimalsB, upperInit, i, tick, sqrtP, liq). 10 - i)")
     auto

text \<open>The downward loop of \<open>listTradableAmounts\<close>.\<close>

function downwardTradableAmount ::
  "collaborators \<Rightarrow> int \<Rightarrow> TickArrayData option list \<Rightarrow> nat \<Rightarrow> nat \<Rightarrow> int
     \<Rightarrow> nat \<Rightarrow> int \<Rightarrow> int \<Rightarrow> int \<Rightarrow> error + TradableAmount list" where
  "downwardTradableAmount m ts tickArrays decimalsA decimalsB lowerInit i tick sqrtP liq =
     (if i < 10 then
        let nextTickIndex = lowerInit - int i * ts
        in (case getTick nextTickIndex ts tickArrays of
              None \<Rightarrow> Inr []
            | Some t \<Rightarrow>
                (case step_amounts m decimalsA decimalsB sqrtP liq nextTickIndex True False of
                   Inl e \<Rightarrow> Inl e
                 | Inr (nextSqrtPrice, nextPrice, a, b) \<Rightarrow>
                     let r = \<lparr>tickIndex = nextTickIndex, price = nextPrice,
                              amountA = a, amountB = b\<rparr>
                     in (case downwardTradableAmount m ts tickArrays decimalsA decimalsB
                                lowerInit (i + 1) nextTickIndex nextSqrtPrice
                                (liq - liquidityNet t) of
                           Inl e \<Rightarrow> Inl e
                         | Inr rest \<Rightarrow> Inr (r # rest))))
      else Inr [])"
  by pat_completeness auto
termination
  by (relation "measure (\<lambda>(m, ts, tickArrays, decimalsA, decimalsB, lowerInit, i, tick, sqrtP, liq). 10 - i)")
     auto

text \<open>
  \<open>listTradableAmounts\<close>. With \<open>tickSpacing = 0\<close> the source computes \<open>NaN\<close> tick indexes
  and passes them to the SDK.
\<close>

definition listTradableAmounts ::
  "collaborators \<Rightarrow> WhirlpoolData \<Rightarrow> TickArrayData option list \<Rightarrow> nat \<Rightarrow> nat
     \<Rightarrow> error + TradableAmount TradableAmounts" where
  "listTradableAmounts m whirlpool tickArrays decimalsA decimalsB =
     (if tickSpacing whirlpool = 0 then Inl Not_modelled
      else
        let lowerInitializableTickIndex =
              (tickCurrentIndex whirlpool div tickSpacing whirlpool) * tickSpacing whirlpool;
            upperInitializableTickIndex =
              lowerInitializableTickIndex + tickSpacing whirlpool
        in (case upwardTradableAmount m (tickSpacing whirlpool) tickArrays decimalsA decimalsB
                   upperInitializableTickIndex 0 (tickCurrentIndex whirlpool)
                   (sqrtPrice whirlpool) (liquidity whirlpool) of
              Inl e \<Rightarrow> Inl e
            | Inr up \<Rightarrow>
                (case downwardTradableAmount m (tickSpacing whirlpool) tickArrays
                        decimalsA decimalsB lowerInitializableTickIndex 0
                        (tickCurrentIndex whirlpool) (sqrtPrice whirlpool)
                        (liquidity whirlpool) of
                   Inl e \<Rightarrow> Inl e
                 | Inr down \<Rightarrow> Inr \<lparr>upward = up, downward = down, error = False\<rparr>)))"

section \<open>Per-bucket simulator\<close>

text \<open>
  Reading a slot of the start-index list or of the pubkey list that does not exist gives
  \<open>undefined\<close> in JavaScript; the source stores it and later passes it to the SDK
  (\<open>tickIndexToPrice\<close> of an undefined start index). The source does not raise at the
  read; the model ends with \<open>Not_modelled\<close> there, since the rest of the run depends on
  the SDK's treatment of \<open>undefined\<close>. Reading a missing slot of \<open>tickArrays\<close> gives
  \<open>undefined\<close>, which the source treats like \<open>null\<close> (bucket not loaded).
\<close>

definition nth_defined :: "'a list \<Rightarrow> int \<Rightarrow> error + 'a" where
  "nth_defined xs j = (if 0 \<le> j \<and> nat j < length xs then Inr (xs ! nat j) else Inl Not_modelled)"

definition nth_or_null :: "'a option list \<Rightarrow> int \<Rightarrow> 'a option" where
  "nth_or_null xs j = (if 0 \<le> j \<and> nat j < length xs then xs ! nat j else None)"

text \<open>Running a list of computations in order; the first error is the outcome.\<close>

fun sequence_err :: "(error + 'a) list \<Rightarrow> error + 'a list" where
  "sequence_err [] = Inr []"
| "sequence_err (x # xs) =
     (case x of
        Inl e \<Rightarrow> Inl e
      | Inr v \<Rightarrow> (case sequence_err xs of Inl e \<Rightarrow> Inl e | Inr vs \<Rightarrow> Inr (v # vs)))"

text \<open>
  \<open>currentTickArrayIndex\<close>: the exact quotient \<open>(currentTickArrayStartIndex -
  tickArrayStartIndexes[0]) / ticksInArray\<close>. \<open>None\<close> is \<open>NaN\<close> (empty list of start
  indexes); a quotient that is not an integer indexes no slot at all.
\<close>

definition currentTickArrayIndex_of :: "int \<Rightarrow> int \<Rightarrow> int list \<Rightarrow> error + int option" where
  "currentTickArrayIndex_of currentTickArrayStartIndex ticksInArray tickArrayStartIndexes =
     (case tickArrayStartIndexes of
        [] \<Rightarrow> Inr None
      | s0 # _ \<Rightarrow>
          if ticksInArray dvd (currentTickArrayStartIndex - s0)
          then Inr (Some ((currentTickArrayStartIndex - s0) div ticksInArray))
          else Inl Not_modelled)"

text \<open>
  The two loops that copy a sub-window: for every index of \<open>js\<close> the pubkey, the start
  index and the bucket data at that index.
\<close>

definition collect_window ::
  "'pk list \<Rightarrow> int list \<Rightarrow> TickArrayData option list \<Rightarrow> int list
     \<Rightarrow> error + ('pk \<times> int \<times> TickArrayData option) list" where
  "collect_window tickArrayPubkeys tickArrayStartIndexes tickArrays js =
     sequence_err (map (\<lambda>j.
       (case nth_defined tickArrayPubkeys j of
          Inl e \<Rightarrow> Inl e
        | Inr pk \<Rightarrow>
            (case nth_defined tickArrayStartIndexes j of
               Inl e \<Rightarrow> Inl e
             | Inr s \<Rightarrow> Inr (pk, s, nth_or_null tickArrays j)))) js)"

text \<open>
  The upward tick loop of \<open>listTickArrayTradableAmounts\<close> (\<open>for (let i=0; true; i++)\<close>),
  from iteration \<open>i\<close> with the working state \<open>(sqrtP, liq, upwardIndex)\<close> and the two
  accumulator arrays. \<open>None\<close>: the loop does not return. Adding to an accumulator slot
  that does not exist is a TypeError.
\<close>

partial_function (option) upwardAmount ::
  "collaborators \<Rightarrow> int \<Rightarrow> TickArrayData option list \<Rightarrow> nat \<Rightarrow> nat \<Rightarrow> int \<Rightarrow> int \<Rightarrow> int
     \<Rightarrow> nat \<Rightarrow> int \<Rightarrow> int \<Rightarrow> nat \<Rightarrow> rat list \<Rightarrow> rat list
     \<Rightarrow> (error + rat list \<times> rat list) option" where
  "upwardAmount m ts tickArrays decimalsA decimalsB ticksInArray upperInit upwardLastTickIndex
       i sqrtP liq upwardIndex upwardAmountA upwardAmountB =
     (let nextTickIndex = upperInit + int i * ts
      in if nextTickIndex > upwardLastTickIndex then Some (Inr (upwardAmountA, upwardAmountB))
         else
           (case step_amounts m decimalsA decimalsB sqrtP liq nextTickIndex False True of
              Inl e \<Rightarrow> Some (Inl e)
            | Inr (nextSqrtPrice, nextPrice, deltaADecimal, deltaBDecimal) \<Rightarrow>
                if upwardIndex < length upwardAmountA \<and> upwardIndex < length upwardAmountB
                then
                  upwardAmount m ts tickArrays decimalsA decimalsB ticksInArray upperInit
                    upwardLastTickIndex (i + 1) nextSqrtPrice
                    (case getTick nextTickIndex ts tickArrays of
                       None \<Rightarrow> liq
                     | Some t \<Rightarrow> liq + liquidityNet t)
                    (if nextTickIndex smod ticksInArray = 0 then upwardIndex + 1
                     else upwardIndex)
                    (upwardAmountA[upwardIndex := upwardAmountA ! upwardIndex + deltaADecimal])
                    (upwardAmountB[upwardIndex := upwardAmountB ! upwardIndex + deltaBDecimal])
                else Some (Inl Type_error)))"

text \<open>The downward tick loop of \<open>listTickArrayTradableAmounts\<close>.\<close>

partial_function (option) downwardAmount ::
  "collaborators \<Rightarrow> int \<Rightarrow> TickArrayData option list \<Rightarrow> nat \<Rightarrow> nat \<Rightarrow> int \<Rightarrow> int \<Rightarrow> int
     \<Rightarrow> nat \<Rightarrow> int \<Rightarrow> int \<Rightarrow> nat \<Rightarrow> rat list \<Rightarrow> rat list
     \<Rightarrow> (error + rat list \<times> rat list) option" where
  "downwardAmount m ts tickArrays decimalsA decimalsB ticksInArray lowerInit
       downwardLastTickIndex i sqrtP liq downwardIndex downwardAmountA downwardAmountB =
     (let nextTickIndex = lowerInit - int i * ts
      in if nextTickIndex < downwardLastTickIndex
         then Some (Inr (downwardAmountA, downwardAmountB))
         else
           (case step_amounts m decimalsA decimalsB sqrtP liq nextTickIndex True False of
              Inl e \<Rightarrow> Some (Inl e)
            | Inr (nextSqrtPrice, nextPrice, deltaADecimal, deltaBDecimal) \<Rightarrow>
                if downwardIndex < length downwardAmountA
                   \<and> downwardIndex < length downwardAmountB
                then
                  downwardAmount m ts tickArrays decimalsA decimalsB ticksInArray lowerInit
                    downwardLastTickIndex (i + 1) nextSqrtPrice
                    (case getTick nextTickIndex ts tickArrays of
                       None \<Rightarrow> liq
                     | Some t \<Rightarrow> liq - liquidityNet t)
                    (if nextTickIndex smod ticksInArray = 0 then downwardIndex + 1
                     else downwardIndex)
                    (downwardAmountA
                       [downwardIndex := downwardAmountA ! downwardIndex + deltaADecimal])
                    (downwardAmountB
                       [downwardIndex := downwardAmountB ! downwardIndex + deltaBDecimal])
                else Some (Inl Type_error)))"

declare upwardAmount.simps [code]
declare downwardAmount.simps [code]

text \<open>The two loops that build the output records of a sub-window.\<close>

definition tickArrayTradableAmount_list ::
  "collaborators \<Rightarrow> nat \<Rightarrow> nat \<Rightarrow> ('pk \<times> int \<times> TickArrayData option) list
     \<Rightarrow> rat list \<Rightarrow> rat list \<Rightarrow> error + 'pk TickArrayTradableAmount list" where
  "tickArrayTradableAmount_list m decimalsA decimalsB window amtA amtB =
     sequence_err (map (\<lambda>i.
       (case window ! i of (pk, s, d) \<Rightarrow>
          (case tickIndexToPrice m s decimalsA decimalsB of
             Inl e \<Rightarrow> Inl e
           | Inr p \<Rightarrow>
               Inr \<lparr>tickArrayPubkey = pk, tickArrayStartIndex = s,
                    tickArrayStartPrice = toFixedDecimal m p decimalsB,
                    tickArrayData = d,
                    amountA = amtA ! i, amountB = amtB ! i\<rparr>))) [0..<length window])"

text \<open>\<open>listTickArrayTradableAmounts\<close>; \<open>None\<close>: the call does not return.\<close>

definition listTickArrayTradableAmounts ::
  "collaborators \<Rightarrow> WhirlpoolData \<Rightarrow> int list \<Rightarrow> 'pk list \<Rightarrow> TickArrayData option list
     \<Rightarrow> nat \<Rightarrow> nat \<Rightarrow> (error + 'pk TickArrayTradableAmount TradableAmounts) option" where
  "listTickArrayTradableAmounts m whirlpool tickArrayStartIndexes tickArrayPubkeys tickArrays
       decimalsA decimalsB =
     (if tickSpacing whirlpool = 0 then Some (Inl Not_modelled)
      else
        let ts = tickSpacing whirlpool;
            ticksInArray = ts * TICK_ARRAY_SIZE;
            lowerInitializableTickIndex = (tickCurrentIndex whirlpool div ts) * ts;
            upperInitializableTickIndex = lowerInitializableTickIndex + ts;
            currentTickArrayStartIndex =
              (tickCurrentIndex whirlpool div ticksInArray) * ticksInArray
        in
        (case currentTickArrayIndex_of currentTickArrayStartIndex ticksInArray
                tickArrayStartIndexes of
           Inl e \<Rightarrow> Some (Inl e)
         | Inr currentTickArrayIndex \<Rightarrow>
        (case collect_window tickArrayPubkeys tickArrayStartIndexes tickArrays
                (case currentTickArrayIndex of
                   None \<Rightarrow> []
                 | Some c \<Rightarrow> [c..int (length tickArrayPubkeys) - 1]) of
           Inl e \<Rightarrow> Some (Inl e)
         | Inr upwardWindow \<Rightarrow>
        (case upwardAmount m ts tickArrays decimalsA decimalsB ticksInArray
                upperInitializableTickIndex
                (min (MAX_TICK_INDEX m)
                     (currentTickArrayStartIndex + int (length upwardWindow) * ticksInArray))
                0 (sqrtPrice whirlpool) (liquidity whirlpool) 0
                (replicate (length upwardWindow) 0) (replicate (length upwardWindow) 0) of
           None \<Rightarrow> None
         | Some (Inl e) \<Rightarrow> Some (Inl e)
         | Some (Inr (upwardAmountA, upwardAmountB)) \<Rightarrow>
        (case collect_window tickArrayPubkeys tickArrayStartIndexes tickArrays
                (case currentTickArrayIndex of
                   None \<Rightarrow> []
                 | Some c \<Rightarrow> rev [0..c]) of
           Inl e \<Rightarrow> Some (Inl e)
         | Inr downwardWindow \<Rightarrow>
        (case downwardAmount m ts tickArrays decimalsA decimalsB ticksInArray
                lowerInitializableTickIndex
                (max (MIN_TICK_INDEX m)
                     (currentTickArrayStartIndex
                        - (int (length downwardWindow) - 1) * ticksInArray))
                0 (sqrtPrice whirlpool) (liquidity whirlpool) 0
                (replicate (length downwardWindow) 0)
                (replicate (length downwardWindow) 0) of
           None \<Rightarrow> None
         | Some (Inl e) \<Rightarrow> Some (Inl e)
         | Some (Inr (downwardAmountA, downwardAmountB)) \<Rightarrow>
        (case tickArrayTradableAmount_list m decimalsA decimalsB upwardWindow
                upwardAmountA upwardAmountB of
           Inl e \<Rightarrow> Some (Inl e)
         | Inr up \<Rightarrow>
        (case tickArrayTradableAmount_list m decimalsA decimalsB downwardWindow
                downwardAmountA downwardAmountB of
           Inl e \<Rightarrow> Some (Inl e)
         | Inr down \<Rightarrow>
             Some (Inr \<lparr>upward = up, downward = down, error = False\<rparr>)))))))))"

section \<open>The caller's error handling\<close>

text \<open>
  The part of \<open>getWhirlpoolInfo\<close> that runs the two simulators: each call sits in its own
  \<open>try\<close> block whose \<open>catch\<close> leaves the initial value
  \<open>{ downward: [], upward: [], error: true }\<close> in place. The result is the pair
  \<open>(tradableAmounts, tickArrayTradableAmounts)\<close>.
\<close>

definition getWhirlpoolInfo_tradable ::
  "collaborators \<Rightarrow> WhirlpoolData \<Rightarrow> int list \<Rightarrow> 'pk list \<Rightarrow> TickArrayData option list
     \<Rightarrow> nat \<Rightarrow> nat
     \<Rightarrow> (TradableAmount TradableAmounts \<times> 'pk TickArrayTradableAmount TradableAmounts) option"
  where
  "getWhirlpoolInfo_tradable m whirlpoolData tickArrayStartIndexes tickArrayPubkeys tickArrays
       decimalsA decimalsB =
     (let tradableAmounts =
            (case listTradableAmounts m whirlpoolData tickArrays decimalsA decimalsB of
               Inl e \<Rightarrow> \<lparr>upward = [], downward = [], error = True\<rparr>
             | Inr calculated \<Rightarrow> calculated)
      in (case listTickArrayTradableAmounts m whirlpoolData tickArrayStartIndexes
                 tickArrayPubkeys tickArrays decimalsA decimalsB of
            None \<Rightarrow> None
          | Some (Inl e) \<Rightarrow> Some (tradableAmounts, \<lparr>upward = [], downward = [], error = True\<rparr>)
          | Some (Inr calculated) \<Rightarrow> Some (tradableAmounts, calculated)))"

section \<open>Concrete collaborators and buckets\<close>

text \<open>
  A collaborator on which the simulators can be run: it never raises, square-root price
  and price grow strictly with the tick index, and an amount delta over an empty price
  interval is zero. The tick bounds are those of the protocol.
\<close>

definition sample_sdk :: collaborators where
  "sample_sdk =
     \<lparr>tickIndexToSqrtPriceX64 = (\<lambda>t. Inr (1000000 + t)),
      tickIndexToPrice = (\<lambda>t dA dB. Inr (of_int t)),
      getAmountDeltaA = (\<lambda>p q l roundUp. Inr (l * \<bar>q - p\<bar>)),
      getAmountDeltaB = (\<lambda>p q l roundUp. Inr (l * \<bar>q - p\<bar>)),
      toFixedDecimal = (\<lambda>p d. p),
      fromBN = (\<lambda>n d. of_int n),
      MIN_TICK_INDEX = - 443636,
      MAX_TICK_INDEX = 443636\<rparr>"

text \<open>
  The concrete collaborator, except that the square-root price conversion raises for a
  tick index outside the protocol's tick bounds.
\<close>

definition bounded_sdk :: collaborators where
  "bounded_sdk =
     sample_sdk\<lparr>tickIndexToSqrtPriceX64 :=
       (\<lambda>t. if t < - 443636 \<or> 443636 < t then Inl Sdk_error else Inr (1000000 + t))\<rparr>"

text \<open>The concrete collaborator, except that the square-root price conversion always raises.\<close>

definition raising_sdk :: collaborators where
  "raising_sdk = sample_sdk\<lparr>tickIndexToSqrtPriceX64 := (\<lambda>t. Inl Sdk_error)\<rparr>"

text \<open>
  The concrete collaborator, except that the price of tick \<open>t\<close> is \<open>1 + t / 10000\<close> and
  \<open>toFixedDecimal\<close> rounds to the given number of decimal digits.
\<close>

definition rounding_sdk :: collaborators where
  "rounding_sdk =
     sample_sdk\<lparr>tickIndexToPrice := (\<lambda>t dA dB. Inr (1 + of_int t / 10000)),
                toFixedDecimal := (\<lambda>p d. of_int \<lfloor>p * 10 ^ d + 1 / 2\<rfloor> / 10 ^ d)\<rparr>"

text \<open>A loaded bucket whose 88 ticks all have zero \<open>liquidityNet\<close>.\<close>

definition zero_array :: "int \<Rightarrow> TickArrayData" where
  "zero_array s =
     \<lparr>startTickIndex = s,
      ticks = replicate 88 \<lparr>initialized = False, liquidityNet = 0\<rparr>\<rparr>"

text \<open>A loaded bucket whose 88 ticks all have \<open>liquidityNet = n\<close>.\<close>

definition net_array :: "int \<Rightarrow> int \<Rightarrow> TickArrayData" where
  "net_array s n =
     \<lparr>startTickIndex = s,
      ticks = replicate 88 \<lparr>initialized = True, liquidityNet = n\<rparr>\<rparr>"

text \<open>
  The buckets of the scenario with spacing 64 and current tick 1000: the window of two
  buckets on either side of bucket 0, all loaded with zero \<open>liquidityNet\<close>, except the
  bucket above the current one (start index 5632), which is not loaded.
\<close>

definition scenario_tickArrays :: "TickArrayData option list" where
  "scenario_tickArrays =
     [Some (zero_array (- 11264)), Some (zero_array (- 5632)), Some (zero_array 0), None,
      Some (zero_array 11264)]"

section \<open>Unfolding one iteration of the per-step loops\<close>


declare upwardTradableAmount.simps [simp del]
declare downwardTradableAmount.simps [simp del]

lemma getTick_no_buckets: "\<forall>a\<in>set tas. a = None \<Longrightarrow> getTick t ts tas = None"
  by (induction tas) auto

lemma upward_unfold_unknown:
  assumes "i < 10" and "getTick (upperInit + int i * ts) ts tas = None"
  shows "upwardTradableAmount m ts tas dA dB upperInit i tick sqrtP liq =
     (if upperInit + int i * ts - 1 \<le> tick then Inr []
      else (case step_amounts m dA dB sqrtP liq (upperInit + int i * ts - 1) False True of
              Inl e \<Rightarrow> Inl e
            | Inr (nextSqrtPrice, nextPrice, a, b) \<Rightarrow>
                Inr [\<lparr>tickIndex = upperInit + int i * ts - 1, price = nextPrice,
                      amountA = a, amountB = b\<rparr>]))"
  using assms
  by (subst upwardTradableAmount.simps) (simp add: Let_def split: sum.splits prod.splits)

lemma upward_unfold_known:
  assumes "i < 10" and "getTick (upperInit + int i * ts) ts tas = Some t"
  shows "upwardTradableAmount m ts tas dA dB upperInit i tick sqrtP liq =
     (if upperInit + int i * ts \<le> tick then Inr []
      else (case step_amounts m dA dB sqrtP liq (upperInit + int i * ts) False True of
              Inl e \<Rightarrow> Inl e
            | Inr (nextSqrtPrice, nextPrice, a, b) \<Rightarrow>
                (case upwardTradableAmount m ts tas dA dB upperInit (i + 1)
                        (upperInit + int i * ts) nextSqrtPrice (liq + liquidityNet t) of
                   Inl e \<Rightarrow> Inl e
                 | Inr rest \<Rightarrow>
                     Inr (\<lparr>tickIndex = upperInit + int i * ts, price = nextPrice,
                           amountA = a, amountB = b\<rparr> # rest))))"
  using assms
  by (subst upwardTradableAmount.simps) (simp add: Let_def split: sum.splits prod.splits)

lemma upward_unfold_done: "10 \<le> i \<Longrightarrow> upwardTradableAmount m ts tas dA dB upperInit i tick sqrtP liq = Inr []"
  by (subst upwardTradableAmount.simps) simp

lemma downward_unfold:
  assumes "i < 10"
  shows "(getTick (lowerInit - int i * ts) ts tas = None \<longrightarrow>
            downwardTradableAmount m ts tas dA dB lowerInit i tick sqrtP liq = Inr []) \<and>
         (\<forall>t. getTick (lowerInit - int i * ts) ts tas = Some t \<longrightarrow>
            downwardTradableAmount m ts tas dA dB lowerInit i tick sqrtP liq =
              (case step_amounts m dA dB sqrtP liq (lowerInit - int i * ts) True False of
                 Inl e \<Rightarrow> Inl e
               | Inr (nextSqrtPrice, nextPrice, a, b) \<Rightarrow>
                   (case downwardTradableAmount m ts tas dA dB lowerInit (i + 1)
                           (lowerInit - int i * ts) nextSqrtPrice (liq - liquidityNet t) of
                      Inl e \<Rightarrow> Inl e
                    | Inr rest \<Rightarrow>
                        Inr (\<lparr>tickIndex = lowerInit - int i * ts, price = nextPrice,
                              amountA = a, amountB = b\<rparr> # rest))))"
proof (intro conjI allI impI)
  assume "getTick (lowerInit - int i * ts) ts tas = None"
  then show "downwardTradableAmount m ts tas dA dB lowerInit i tick sqrtP liq = Inr []"
    using assms by (subst downwardTradableAmount.simps) (simp add: Let_def)
next
  fix t assume "getTick (lowerInit - int i * ts) ts tas = Some t"
  then show "downwardTradableAmount m ts tas dA dB lowerInit i tick sqrtP liq =
              (case step_amounts m dA dB sqrtP liq (lowerInit - int i * ts) True False of
                 Inl e \<Rightarrow> Inl e
               | Inr (nextSqrtPrice, nextPrice, a, b) \<Rightarrow>
                   (case downwardTradableAmount m ts tas dA dB lowerInit (i + 1)
                           (lowerInit - int i * ts) nextSqrtPrice (liq - liquidityNet t) of
                      Inl e \<Rightarrow> Inl e
                    | Inr rest \<Rightarrow>
                        Inr (\<lparr>tickIndex = lowerInit - int i * ts, price = nextPrice,
                              amountA = a, amountB = b\<rparr> # rest)))"
    using assms by (subst downwardTradableAmount.simps) (simp add: Let_def split: sum.splits prod.splits)
qed


lemma step_amounts_price:
  "step_amounts m dA dB sp lq t ra rb = Inr (nsp, np, a, b) \<Longrightarrow>
     \<exists>p. tickIndexToPrice m t dA dB = Inr p \<and> np = toFixedDecimal m p dB"
  by (auto simp: step_amounts_def split: sum.splits)

lemma upward_ticks:
  assumes "0 < ts"
  shows "i \<le> n \<Longrightarrow> n \<le> 10 \<Longrightarrow>
     (\<forall>j. i \<le> j \<and> j < n \<longrightarrow> getTick (u + int j * ts) ts tas \<noteq> None) \<Longrightarrow>
     (n < 10 \<longrightarrow> getTick (u + int n * ts) ts tas = None) \<Longrightarrow>
     tick < u + int i * ts \<Longrightarrow>
     upwardTradableAmount m ts tas dA dB u i tick sp lq = Inr recs \<Longrightarrow>
     map tickIndex recs =
       map (\<lambda>j. u + int j * ts) [i..<n] @
       (if n < 10 \<and> (if n = i then tick else u + int n * ts - ts) < u + int n * ts - 1
        then [u + int n * ts - 1] else [])"
proof (induction "n - i" arbitrary: i tick sp lq recs)
  case 0
  then have ni: "n = i" by simp
  show ?case
  proof (cases "n < 10")
    case False
    then have "10 \<le> i" using ni by simp
    then have "recs = []" using "0.prems"(6) by (simp add: upward_unfold_done)
    then show ?thesis using False ni by simp
  next
    case True
    then have i10: "i < 10" and un: "getTick (u + int i * ts) ts tas = None"
      using ni "0.prems"(4) by auto
    show ?thesis
      using "0.prems"(6) ni True
      unfolding upward_unfold_unknown [OF i10 un]
      by (auto split: if_splits sum.splits prod.splits)
  qed
next
  case (Suc k)
  then have lt: "i < n" and i10: "i < 10" by auto
  then obtain t where kn: "getTick (u + int i * ts) ts tas = Some t"
    using Suc.prems(3) by auto
  have nle: "\<not> u + int i * ts \<le> tick" using Suc.prems(5) by simp
  from Suc.prems(6) obtain nsp np a b rest where
    st: "step_amounts m dA dB sp lq (u + int i * ts) False True = Inr (nsp, np, a, b)"
    and rc: "upwardTradableAmount m ts tas dA dB u (i + 1) (u + int i * ts) nsp
               (lq + liquidityNet t) = Inr rest"
    and recs: "recs = \<lparr>tickIndex = u + int i * ts, price = np, amountA = a, amountB = b\<rparr> # rest"
    unfolding upward_unfold_known [OF i10 kn] using nle
    by (auto split: sum.splits prod.splits)
  have k: "k = n - (i + 1)" using Suc.hyps(2) by simp
  have pr: "u + int i * ts < u + int (i + 1) * ts" using assms by (simp add: algebra_simps)
  have IH: "map tickIndex rest =
       map (\<lambda>j. u + int j * ts) [i + 1..<n] @
       (if n < 10 \<and> (if n = i + 1 then u + int i * ts else u + int n * ts - ts) < u + int n * ts - 1
        then [u + int n * ts - 1] else [])"
    using Suc.hyps(1) [OF k _ Suc.prems(2) _ Suc.prems(4) pr rc] lt Suc.prems(3) by simp
  have eq: "(if n = i + 1 then u + int i * ts else u + int n * ts - ts) = u + int n * ts - ts"
    by (simp add: algebra_simps)
  have up: "[i..<n] = i # [i + 1..<n]" using lt by (simp add: upt_conv_Cons)
  show ?case using IH lt unfolding recs eq up by simp
qed

lemma downward_ticks:
  "i \<le> n \<Longrightarrow> n \<le> 10 \<Longrightarrow>
     (\<forall>j. i \<le> j \<and> j < n \<longrightarrow> getTick (l - int j * ts) ts tas \<noteq> None) \<Longrightarrow>
     (n < 10 \<longrightarrow> getTick (l - int n * ts) ts tas = None) \<Longrightarrow>
     downwardTradableAmount m ts tas dA dB l i tick sp lq = Inr recs \<Longrightarrow>
     map tickIndex recs = map (\<lambda>j. l - int j * ts) [i..<n]"
proof (induction "n - i" arbitrary: i tick sp lq recs)
  case 0
  then have ni: "n = i" by simp
  show ?case
  proof (cases "n < 10")
    case False
    then have "recs = []" using "0.prems"(5) ni
      by (subst (asm) downwardTradableAmount.simps) simp
    then show ?thesis using ni by simp
  next
    case True
    then have i10: "i < 10" and un: "getTick (l - int i * ts) ts tas = None"
      using ni "0.prems"(4) by auto
    show ?thesis using "0.prems"(5) ni downward_unfold [OF i10, of l ts tas] un by simp
  qed
next
  case (Suc k)
  then have lt: "i < n" and i10: "i < 10" by auto
  then obtain t where kn: "getTick (l - int i * ts) ts tas = Some t"
    using Suc.prems(3) by auto
  from Suc.prems(5) obtain nsp np a b rest where
    rc: "downwardTradableAmount m ts tas dA dB l (i + 1) (l - int i * ts) nsp
               (lq - liquidityNet t) = Inr rest"
    and recs: "recs = \<lparr>tickIndex = l - int i * ts, price = np, amountA = a, amountB = b\<rparr> # rest"
    using downward_unfold [OF i10, of l ts tas m dA dB tick sp lq] kn
    by (auto split: sum.splits prod.splits)
  have k: "k = n - (i + 1)" using Suc.hyps(2) by simp
  have IH: "map tickIndex rest = map (\<lambda>j. l - int j * ts) [i + 1..<n]"
    using Suc.hyps(1) [OF k _ Suc.prems(2) _ Suc.prems(4) rc] lt Suc.prems(3) by simp
  have up: "[i..<n] = i # [i + 1..<n]" using lt by (simp add: upt_conv_Cons)
  show ?case using IH unfolding recs up by simp
qed



lemma upperInit_above:
  "0 < ts \<Longrightarrow> (tc::int) < tc div ts * ts + ts"
  using pos_mod_bound [of ts tc] by (simp add: minus_mod_eq_div_mult [symmetric])

lemma upward_records:
  "upwardTradableAmount m ts tas dA dB u i tick sp lq = Inr recs \<Longrightarrow>
     sorted_wrt (<) (map tickIndex recs) \<and>
     (\<forall>r\<in>set recs. tick < tickIndex r \<and>
        (\<exists>p. tickIndexToPrice m (tickIndex r) dA dB = Inr p \<and> price r = toFixedDecimal m p dB))"
proof (induction "10 - i" arbitrary: i tick sp lq recs)
  case 0
  then have "recs = []" by (simp add: upward_unfold_done)
  then show ?case by simp
next
  case (Suc k)
  then have i10: "i < 10" by simp
  show ?case
  proof (cases "getTick (u + int i * ts) ts tas")
    case None
    show ?thesis
      using Suc.prems unfolding upward_unfold_unknown [OF i10 None]
      by (auto split: if_splits sum.splits prod.splits dest: step_amounts_price)
  next
    case (Some t)
    show ?thesis
    proof (cases "u + int i * ts \<le> tick")
      case True
      then have "recs = []" using Suc.prems unfolding upward_unfold_known [OF i10 Some] by simp
      then show ?thesis by simp
    next
      case False
      from Suc.prems obtain nsp np a b rest where
        st: "step_amounts m dA dB sp lq (u + int i * ts) False True = Inr (nsp, np, a, b)"
        and rc: "upwardTradableAmount m ts tas dA dB u (i + 1) (u + int i * ts) nsp
                   (lq + liquidityNet t) = Inr rest"
        and recs: "recs = \<lparr>tickIndex = u + int i * ts, price = np, amountA = a, amountB = b\<rparr> # rest"
        unfolding upward_unfold_known [OF i10 Some] using False
        by (auto split: sum.splits prod.splits)
      have k: "k = 10 - (i + 1)" using Suc.hyps(2) by simp
      note IH = Suc.hyps(1) [OF k rc]
      from step_amounts_price [OF st] obtain p where
        "tickIndexToPrice m (u + int i * ts) dA dB = Inr p" "np = toFixedDecimal m p dB" by blast
      then show ?thesis using IH False unfolding recs by auto
    qed
  qed
qed

lemma downward_records:
  assumes "0 < ts"
  shows "downwardTradableAmount m ts tas dA dB l i tick sp lq = Inr recs \<Longrightarrow>
     sorted_wrt (>) (map tickIndex recs) \<and>
     (\<forall>r\<in>set recs. tickIndex r \<le> l - int i * ts \<and>
        (\<exists>p. tickIndexToPrice m (tickIndex r) dA dB = Inr p \<and> price r = toFixedDecimal m p dB))"
proof (induction "10 - i" arbitrary: i tick sp lq recs)
  case 0
  then have "recs = []" by (subst (asm) downwardTradableAmount.simps) simp
  then show ?case by simp
next
  case (Suc k)
  then have i10: "i < 10" by simp
  show ?case
  proof (cases "getTick (l - int i * ts) ts tas")
    case None
    then have "recs = []" using Suc.prems downward_unfold [OF i10, of l ts tas] by simp
    then show ?thesis by simp
  next
    case (Some t)
    from Suc.prems obtain nsp np a b rest where
      st: "step_amounts m dA dB sp lq (l - int i * ts) True False = Inr (nsp, np, a, b)"
      and rc: "downwardTradableAmount m ts tas dA dB l (i + 1) (l - int i * ts) nsp
                 (lq - liquidityNet t) = Inr rest"
      and recs: "recs = \<lparr>tickIndex = l - int i * ts, price = np, amountA = a, amountB = b\<rparr> # rest"
      using downward_unfold [OF i10, of l ts tas m dA dB tick sp lq] Some
      by (auto split: sum.splits prod.splits)
    have k: "k = 10 - (i + 1)" using Suc.hyps(2) by simp
    note IH = Suc.hyps(1) [OF k rc]
    have lt: "l - int (i + 1) * ts < l - int i * ts" using assms by (simp add: algebra_simps)
    from step_amounts_price [OF st] obtain p where
      "tickIndexToPrice m (l - int i * ts) dA dB = Inr p" "np = toFixedDecimal m p dB" by blast
    then show ?thesis using IH lt unfolding recs by fastforce
  qed
qed

lemma listTradableAmounts_Inr:
  assumes "listTradableAmounts m wp tas dA dB = Inr res"
  shows "tickSpacing wp \<noteq> 0"
    and "upwardTradableAmount m (tickSpacing wp) tas dA dB
           (tickCurrentIndex wp div tickSpacing wp * tickSpacing wp + tickSpacing wp) 0
           (tickCurrentIndex wp) (sqrtPrice wp) (liquidity wp) = Inr (upward res)"
    and "downwardTradableAmount m (tickSpacing wp) tas dA dB
           (tickCurrentIndex wp div tickSpacing wp * tickSpacing wp) 0
           (tickCurrentIndex wp) (sqrtPrice wp) (liquidity wp) = Inr (downward res)"
  using assms
  by (auto simp: listTradableAmounts_def Let_def split: if_splits sum.splits)

lemma upward_spacing_one:
  "upwardTradableAmount m 1 tas dA dB u i (u + int i - 1) sp lq = Inr recs \<Longrightarrow>
     map tickIndex recs = map (\<lambda>j. u + int j) [i..<i + length recs] \<and>
     (\<forall>r\<in>set recs. getTick (tickIndex r) 1 tas \<noteq> None) \<and>
     (i + length recs < 10 \<longrightarrow> getTick (u + int (i + length recs)) 1 tas = None)"
proof (induction "10 - i" arbitrary: i sp lq recs)
  case 0
  then have "recs = []" by (simp add: upward_unfold_done)
  then show ?case using 0 by simp
next
  case (Suc k)
  then have i10: "i < 10" by simp
  show ?case
  proof (cases "getTick (u + int i * 1) 1 tas")
    case None
    then have "recs = []" using Suc.prems unfolding upward_unfold_unknown [OF i10 None] by simp
    then show ?thesis using None by simp
  next
    case (Some t)
    from Suc.prems obtain nsp np a b rest where
      rc: "upwardTradableAmount m 1 tas dA dB u (i + 1) (u + int i * 1) nsp
                 (lq + liquidityNet t) = Inr rest"
      and recs: "recs = \<lparr>tickIndex = u + int i * 1, price = np, amountA = a, amountB = b\<rparr> # rest"
      unfolding upward_unfold_known [OF i10 Some]
      by (auto split: sum.splits prod.splits)
    have k: "k = 10 - (i + 1)" using Suc.hyps(2) by simp
    have e: "u + int i * 1 = u + int (i + 1) - 1" by simp
    note IH = Suc.hyps(1) [OF k rc [unfolded e]]
    have up: "[i..<i + length recs] = i # [i + 1..<i + 1 + length rest]"
      unfolding recs by (subst upt_rec) simp
    show ?thesis using IH Some unfolding up unfolding recs by simp
  qed
qed

lemma scenario_known:
  "0 \<le> t \<Longrightarrow> t < 5632 \<Longrightarrow> getTick t 64 scenario_tickArrays \<noteq> None"
  by (simp add: scenario_tickArrays_def getStartTickIndex_def TICK_ARRAY_SIZE_def zero_array_def)

lemma upt_10: "[0..<10] = [0, 1, 2, 3, 4, 5, 6, 7, 8, 9]"
  by code_simp

section \<open>The per-step simulator at the edge of the loaded data\<close>

text \<open>
  C1, as amended. With a positive tick spacing and no loaded bucket, the downward direction
  of \<open>listTradableAmounts\<close> has no record. The upward direction has no record exactly when
  \<open>tickCurrentIndex\<close> is the last tick before the upper initializable tick; otherwise the
  first candidate, decremented by one, is still above the current tick, and the upward
  direction has exactly one capped record, ending at the upper initializable tick minus
  one (or the call raises what the collaborator raises for that step).
\<close>

theorem no_buckets_loaded:
  assumes "0 < tickSpacing wp" and "\<forall>a\<in>set tas. a = None"
  shows "listTradableAmounts m wp tas dA dB =
     (let upperInit = tickCurrentIndex wp div tickSpacing wp * tickSpacing wp + tickSpacing wp
      in if tickCurrentIndex wp = upperInit - 1
         then Inr \<lparr>upward = [], downward = [], error = False\<rparr>
         else (case step_amounts m dA dB (sqrtPrice wp) (liquidity wp) (upperInit - 1)
                      False True of
                 Inl e \<Rightarrow> Inl e
               | Inr (nextSqrtPrice, nextPrice, a, b) \<Rightarrow>
                   Inr \<lparr>upward = [\<lparr>tickIndex = upperInit - 1, price = nextPrice,
                                   amountA = a, amountB = b\<rparr>],
                        downward = [], error = False\<rparr>))"
proof -
  have un: "\<And>t. getTick t (tickSpacing wp) tas = None"
    using assms(2) by (rule getTick_no_buckets)
  have lt: "tickCurrentIndex wp < tickCurrentIndex wp div tickSpacing wp * tickSpacing wp + tickSpacing wp"
    using assms(1) by (rule upperInit_above)
  have dn: "\<And>l tick sp lq. downwardTradableAmount m (tickSpacing wp) tas dA dB l 0 tick sp lq = Inr []"
    using downward_unfold [of 0] un by simp
  show ?thesis
    using assms(1) lt
    by (simp add: listTradableAmounts_def Let_def dn upward_unfold_unknown [of 0] un
          split: sum.splits prod.splits)
qed

text \<open>
  Witness for C1 as amended: spacing 64, current tick 1023 (the last tick before 1024),
  three unloaded buckets: no record in either direction.
\<close>

theorem no_buckets_loaded_witness:
  "listTradableAmounts sample_sdk
     \<lparr>tickSpacing = 64, tickCurrentIndex = 1023, sqrtPrice = 1001023, liquidity = 1000000\<rparr>
     [None, None, None] 6 6 = Inr \<lparr>upward = [], downward = [], error = False\<rparr>"
  using no_buckets_loaded [of "\<lparr>tickSpacing = 64, tickCurrentIndex = 1023, sqrtPrice = 1001023, liquidity = 1000000\<rparr>"
      "[None, None, None]" sample_sdk 6 6]
  by simp

text \<open>
  Counterexample to C1 as stated: spacing 64, current tick 1000, three unloaded buckets.
  The upward direction is not empty: it holds one capped record ending at tick 1023.
\<close>

theorem no_buckets_loaded_counterexample:
  "listTradableAmounts sample_sdk
     \<lparr>tickSpacing = 64, tickCurrentIndex = 1000, sqrtPrice = 1001000, liquidity = 1000000\<rparr>
     [None, None, None] 6 6 =
   Inr \<lparr>upward = [\<lparr>tickIndex = 1023, price = 1023, amountA = 23000000, amountB = 23000000\<rparr>],
        downward = [], error = False\<rparr>"
  by code_simp

text \<open>
  C2. In the upward loop of \<open>listTradableAmounts\<close>, at an iteration whose candidate tick
  has no loaded bucket, the candidate is decremented by one. If the decremented candidate
  is not above the working tick the loop ends and pushes nothing; otherwise it pushes
  exactly one record, for the step from the working square-root price to the decremented
  candidate with the working liquidity, and ends (or raises what the collaborator raises
  for that step).
\<close>

theorem upward_unknown_step:
  assumes "i < 10" and "getTick (upperInit + int i * ts) ts tas = None"
  shows "upwardTradableAmount m ts tas dA dB upperInit i tick sqrtP liq =
     (if upperInit + int i * ts - 1 \<le> tick then Inr []
      else (case step_amounts m dA dB sqrtP liq (upperInit + int i * ts - 1) False True of
              Inl e \<Rightarrow> Inl e
            | Inr (nextSqrtPrice, nextPrice, a, b) \<Rightarrow>
                Inr [\<lparr>tickIndex = upperInit + int i * ts - 1, price = nextPrice,
                      amountA = a, amountB = b\<rparr>]))"
  using assms by (rule upward_unfold_unknown)

text \<open>
  Witness for C2: bucket 0 loaded, spacing 64, candidate 5632 in the bucket that is not
  loaded. From working tick 5600 one capped record ending at 5631; from working tick 5631
  no record.
\<close>

theorem upward_unknown_step_witness:
  "(0::nat) < 10 \<and> getTick (5632 + int 0 * 64) 64 [Some (zero_array 0)] = None \<and>
   upwardTradableAmount sample_sdk 64 [Some (zero_array 0)] 6 6 5632 0 5600 1005600 1000000 =
     Inr [\<lparr>tickIndex = 5631, price = 5631, amountA = 31000000, amountB = 31000000\<rparr>] \<and>
   upwardTradableAmount sample_sdk 64 [Some (zero_array 0)] 6 6 5632 0 5631 1005631 1000000 =
     Inr []"
proof -
  have un: "getTick (5632 + int 0 * 64) 64 [Some (zero_array 0)] = None"
    by (simp add: getStartTickIndex_def TICK_ARRAY_SIZE_def zero_array_def)
  have st: "step_amounts sample_sdk 6 6 1005600 1000000 5631 False True =
      Inr (1005631, 5631, 31000000, 31000000)"
    by (simp add: step_amounts_def sample_sdk_def)
  show ?thesis
    using upward_unknown_step [OF _ un, of sample_sdk 6 6 5600 1005600 1000000]
      upward_unknown_step [OF _ un, of sample_sdk 6 6 5631 1005631 1000000] un st
    by simp
qed


text \<open>
  C3. In the downward loop of \<open>listTradableAmounts\<close>, at an iteration whose candidate
  tick has no loaded bucket, the loop ends at once and pushes nothing for that step (there
  is no capped step, unlike the upward loop). At an iteration whose candidate tick is
  known, the record for the step to the candidate is pushed and the loop goes on from the
  candidate with the liquidity decreased by the crossed tick's \<open>liquidityNet\<close> (or raises
  what the collaborator raises).
\<close>

theorem downward_step:
  assumes "i < 10"
  shows "(getTick (lowerInit - int i * ts) ts tas = None \<longrightarrow>
            downwardTradableAmount m ts tas dA dB lowerInit i tick sqrtP liq = Inr []) \<and>
         (\<forall>t. getTick (lowerInit - int i * ts) ts tas = Some t \<longrightarrow>
            downwardTradableAmount m ts tas dA dB lowerInit i tick sqrtP liq =
              (case step_amounts m dA dB sqrtP liq (lowerInit - int i * ts) True False of
                 Inl e \<Rightarrow> Inl e
               | Inr (nextSqrtPrice, nextPrice, a, b) \<Rightarrow>
                   (case downwardTradableAmount m ts tas dA dB lowerInit (i + 1)
                           (lowerInit - int i * ts) nextSqrtPrice (liq - liquidityNet t) of
                      Inl e \<Rightarrow> Inl e
                    | Inr rest \<Rightarrow>
                        Inr (\<lparr>tickIndex = lowerInit - int i * ts, price = nextPrice,
                              amountA = a, amountB = b\<rparr> # rest))))"
  using assms by (rule downward_unfold)

text \<open>
  Witness for C3: bucket 0 loaded with \<open>liquidityNet = 500\<close> on every tick, spacing 64,
  lower initializable tick 64. The candidate of iteration 2 (tick -64) is not loaded: no
  record. The candidate of iteration 1 (tick 0) is known: its record is pushed, and the
  loop goes on with liquidity 999500 - 500.
\<close>

theorem downward_step_witness:
  "(0::nat) < 10 \<and> getTick (64 - int 1 * 64) 64 [Some (net_array 0 500)] = Some \<lparr>initialized = True, liquidityNet = 500\<rparr> \<and>
   getTick (64 - int 2 * 64) 64 [Some (net_array 0 500)] = None \<and>
   downwardTradableAmount sample_sdk 64 [Some (net_array 0 500)] 6 6 64 2 0 1000000 999000 = Inr [] \<and>
   downwardTradableAmount sample_sdk 64 [Some (net_array 0 500)] 6 6 64 1 64 1000064 999500 =
     Inr [\<lparr>tickIndex = 0, price = 0, amountA = 63968000, amountB = 63968000\<rparr>]"
proof -
  have k: "getTick (64 - int 1 * 64) 64 [Some (net_array 0 500)] = Some \<lparr>initialized = True, liquidityNet = 500\<rparr>"
    by (simp add: getStartTickIndex_def TICK_ARRAY_SIZE_def net_array_def getTickFromArray_def)
  have u: "getTick (64 - int 2 * 64) 64 [Some (net_array 0 500)] = None"
    by (simp add: getStartTickIndex_def TICK_ARRAY_SIZE_def net_array_def)
  have st: "step_amounts sample_sdk 6 6 1000064 999500 0 True False =
      Inr (1000000, 0, 63968000, 63968000)"
    by (simp add: step_amounts_def sample_sdk_def)
  have a: "downwardTradableAmount sample_sdk 64 [Some (net_array 0 500)] 6 6 64 2 0 1000000 999000 = Inr []"
    using downward_step [of 2 64 64 "[Some (net_array 0 500)]" sample_sdk 6 6 0 1000000 999000] u
    by simp
  have a': "downwardTradableAmount sample_sdk 64 [Some (net_array 0 500)] 6 6 64 (1 + 1) 0 1000000 999000 = Inr []"
    using a by (simp add: numeral_2_eq_2)
  have b: "downwardTradableAmount sample_sdk 64 [Some (net_array 0 500)] 6 6 64 1 64 1000064 999500 =
     Inr [\<lparr>tickIndex = 0, price = 0, amountA = 63968000, amountB = 63968000\<rparr>]"
    using downward_step [of 1 64 64 "[Some (net_array 0 500)]" sample_sdk 6 6 64 1000064 999500] k st a'
    by simp
  show ?thesis using k u a b by simp
qed

text \<open>
  C5, as amended. Spacing 64, current tick 1000, liquidity 1000000, the window of two
  buckets on either side loaded with zero \<open>liquidityNet\<close> except the bucket above the
  current one. Whenever \<open>listTradableAmounts\<close> returns, the upward direction has its full
  ten records, at the initializable ticks 1024 to 1600, none of them capped: the bucket
  that is not loaded starts at tick 5632, which ten steps of 64 do not reach. The
  downward direction has its full ten records, at ticks 960 down to 384.
\<close>

theorem scenario_unknown_bucket_above:
  assumes "listTradableAmounts m
             \<lparr>tickSpacing = 64, tickCurrentIndex = 1000, sqrtPrice = sp, liquidity = 1000000\<rparr>
             scenario_tickArrays dA dB = Inr r"
  shows "map tickIndex (upward r) = [1024, 1088, 1152, 1216, 1280, 1344, 1408, 1472, 1536, 1600] \<and>
         map tickIndex (downward r) = [960, 896, 832, 768, 704, 640, 576, 512, 448, 384]"
proof
  have "map tickIndex (upward r) = map (\<lambda>j. 1024 + int j * 64) [0..<10] @
       (if (10::nat) < 10 \<and> (if (10::nat) = 0 then 1000 else 1024 + int 10 * 64 - 64) < 1024 + int 10 * 64 - 1
        then [1024 + int 10 * 64 - 1] else [])"
  proof (rule upward_ticks)
    show "\<forall>j. 0 \<le> j \<and> j < 10 \<longrightarrow> getTick (1024 + int j * 64) 64 scenario_tickArrays \<noteq> None"
      by (intro allI impI scenario_known) auto
    show "upwardTradableAmount m 64 scenario_tickArrays dA dB 1024 0 1000 sp 1000000 = Inr (upward r)"
      using listTradableAmounts_Inr(2) [OF assms] by simp
  qed simp_all
  then show "map tickIndex (upward r) = [1024, 1088, 1152, 1216, 1280, 1344, 1408, 1472, 1536, 1600]"
    by (simp add: upt_10)
next
  have "map tickIndex (downward r) = map (\<lambda>j. 960 - int j * 64) [0..<10]"
  proof (rule downward_ticks)
    show "\<forall>j. 0 \<le> j \<and> j < 10 \<longrightarrow> getTick (960 - int j * 64) 64 scenario_tickArrays \<noteq> None"
      by (intro allI impI scenario_known) auto
    show "downwardTradableAmount m 64 scenario_tickArrays dA dB 960 0 1000 sp 1000000 = Inr (downward r)"
      using listTradableAmounts_Inr(3) [OF assms] by simp
  qed simp_all
  then show "map tickIndex (downward r) = [960, 896, 832, 768, 704, 640, 576, 512, 448, 384]"
    by (simp add: upt_10)
qed

text \<open>
  Witness for C5 as amended: with the concrete collaborator the call returns, with these
  tick indexes.
\<close>

theorem scenario_unknown_bucket_above_witness:
  "\<exists>r. listTradableAmounts sample_sdk
          \<lparr>tickSpacing = 64, tickCurrentIndex = 1000, sqrtPrice = 1001000, liquidity = 1000000\<rparr>
          scenario_tickArrays 6 6 = Inr r \<and>
       map tickIndex (upward r) = [1024, 1088, 1152, 1216, 1280, 1344, 1408, 1472, 1536, 1600] \<and>
       map tickIndex (downward r) = [960, 896, 832, 768, 704, 640, 576, 512, 448, 384]"
proof -
  have "\<not> isl (listTradableAmounts sample_sdk
          \<lparr>tickSpacing = 64, tickCurrentIndex = 1000, sqrtPrice = 1001000, liquidity = 1000000\<rparr>
          scenario_tickArrays 6 6)"
    by code_simp
  then obtain r where r: "listTradableAmounts sample_sdk
          \<lparr>tickSpacing = 64, tickCurrentIndex = 1000, sqrtPrice = 1001000, liquidity = 1000000\<rparr>
          scenario_tickArrays 6 6 = Inr r"
    by (cases "listTradableAmounts sample_sdk
          \<lparr>tickSpacing = 64, tickCurrentIndex = 1000, sqrtPrice = 1001000, liquidity = 1000000\<rparr>
          scenario_tickArrays 6 6") auto
  show ?thesis by (rule exI [of _ r]) (use scenario_unknown_bucket_above [OF r] r in simp)
qed

text \<open>
  Counterexample to C5 as stated: in the scenario the upward direction does not consist of
  one capped record ending at tick 5631; it has ten records, the last one at tick 1600.
\<close>

theorem scenario_unknown_bucket_above_counterexample:
  "map_sum id (\<lambda>r. (map tickIndex (upward r), map tickIndex (downward r)))
     (listTradableAmounts sample_sdk
        \<lparr>tickSpacing = 64, tickCurrentIndex = 1000, sqrtPrice = 1001000, liquidity = 1000000\<rparr>
        scenario_tickArrays 6 6) =
   Inr ([1024, 1088, 1152, 1216, 1280, 1344, 1408, 1472, 1536, 1600],
        [960, 896, 832, 768, 704, 640, 576, 512, 448, 384])"
  by code_simp

text \<open>
  C8, as amended. With a positive tick spacing, the tick indexes of adjacent records of
  \<open>listTradableAmounts\<close> are strictly increasing in the upward direction and strictly
  decreasing in the downward direction. The price of a record is the collaborator's
  conversion of its tick index (\<open>tickIndexToPrice\<close> followed by \<open>toFixedDecimal\<close>). When
  that conversion is strictly increasing in the tick index, the prices of adjacent records
  are strictly increasing upward and strictly decreasing downward; when it is only
  monotonic, as with a \<open>toFixedDecimal\<close> that rounds, the prices of adjacent records are
  non-decreasing upward and non-increasing downward.
\<close>

theorem price_strictly_monotonic:
  assumes "0 < tickSpacing wp"
    and "listTradableAmounts m wp tas dA dB = Inr res"
  shows "(\<forall>k. Suc k < length (upward res) \<longrightarrow>
            tickIndex (upward res ! k) < tickIndex (upward res ! Suc k)) \<and>
         (\<forall>k. Suc k < length (downward res) \<longrightarrow>
            tickIndex (downward res ! Suc k) < tickIndex (downward res ! k)) \<and>
         ((\<forall>t1 t2 p1 p2. t1 < t2 \<and> tickIndexToPrice m t1 dA dB = Inr p1
              \<and> tickIndexToPrice m t2 dA dB = Inr p2
            \<longrightarrow> toFixedDecimal m p1 dB < toFixedDecimal m p2 dB) \<longrightarrow>
          (\<forall>k. Suc k < length (upward res) \<longrightarrow>
             price (upward res ! k) < price (upward res ! Suc k)) \<and>
          (\<forall>k. Suc k < length (downward res) \<longrightarrow>
             price (downward res ! Suc k) < price (downward res ! k))) \<and>
         ((\<forall>t1 t2 p1 p2. t1 < t2 \<and> tickIndexToPrice m t1 dA dB = Inr p1
              \<and> tickIndexToPrice m t2 dA dB = Inr p2
            \<longrightarrow> toFixedDecimal m p1 dB \<le> toFixedDecimal m p2 dB) \<longrightarrow>
          (\<forall>k. Suc k < length (upward res) \<longrightarrow>
             price (upward res ! k) \<le> price (upward res ! Suc k)) \<and>
          (\<forall>k. Suc k < length (downward res) \<longrightarrow>
             price (downward res ! Suc k) \<le> price (downward res ! k)))"
proof -
  note up = upward_records [OF listTradableAmounts_Inr(2) [OF assms(2)]]
  note dn = downward_records [OF assms(1) listTradableAmounts_Inr(3) [OF assms(2)]]
  have tu: "tickIndex (upward res ! k) < tickIndex (upward res ! Suc k)"
    if "Suc k < length (upward res)" for k
    using up that sorted_wrt_nth_less [of "(<)" "map tickIndex (upward res)" k "Suc k"] by simp
  have td: "tickIndex (downward res ! Suc k) < tickIndex (downward res ! k)"
    if "Suc k < length (downward res)" for k
    using dn that sorted_wrt_nth_less [of "(>)" "map tickIndex (downward res)" k "Suc k"] by simp
  have cu: "\<exists>p1 p2. tickIndexToPrice m (tickIndex (upward res ! k)) dA dB = Inr p1 \<and>
              tickIndexToPrice m (tickIndex (upward res ! Suc k)) dA dB = Inr p2 \<and>
              price (upward res ! k) = toFixedDecimal m p1 dB \<and>
              price (upward res ! Suc k) = toFixedDecimal m p2 dB"
    if k: "Suc k < length (upward res)" for k
  proof -
    have "upward res ! k \<in> set (upward res)" "upward res ! Suc k \<in> set (upward res)"
      using k by simp_all
    then show ?thesis using up by blast
  qed
  have cd: "\<exists>p1 p2. tickIndexToPrice m (tickIndex (downward res ! Suc k)) dA dB = Inr p1 \<and>
              tickIndexToPrice m (tickIndex (downward res ! k)) dA dB = Inr p2 \<and>
              price (downward res ! Suc k) = toFixedDecimal m p1 dB \<and>
              price (downward res ! k) = toFixedDecimal m p2 dB"
    if k: "Suc k < length (downward res)" for k
  proof -
    have "downward res ! k \<in> set (downward res)" "downward res ! Suc k \<in> set (downward res)"
      using k by simp_all
    then show ?thesis using dn by blast
  qed
  have pu: "price (upward res ! k) < price (upward res ! Suc k)"
    if strict: "\<forall>t1 t2 p1 p2. t1 < t2 \<and> tickIndexToPrice m t1 dA dB = Inr p1
              \<and> tickIndexToPrice m t2 dA dB = Inr p2
            \<longrightarrow> toFixedDecimal m p1 dB < toFixedDecimal m p2 dB"
      and k: "Suc k < length (upward res)" for k
    using cu [OF k] tu [OF k] strict by metis
  have pd: "price (downward res ! Suc k) < price (downward res ! k)"
    if strict: "\<forall>t1 t2 p1 p2. t1 < t2 \<and> tickIndexToPrice m t1 dA dB = Inr p1
              \<and> tickIndexToPrice m t2 dA dB = Inr p2
            \<longrightarrow> toFixedDecimal m p1 dB < toFixedDecimal m p2 dB"
      and k: "Suc k < length (downward res)" for k
    using cd [OF k] td [OF k] strict by metis
  have wu: "price (upward res ! k) \<le> price (upward res ! Suc k)"
    if mono: "\<forall>t1 t2 p1 p2. t1 < t2 \<and> tickIndexToPrice m t1 dA dB = Inr p1
              \<and> tickIndexToPrice m t2 dA dB = Inr p2
            \<longrightarrow> toFixedDecimal m p1 dB \<le> toFixedDecimal m p2 dB"
      and k: "Suc k < length (upward res)" for k
    using cu [OF k] tu [OF k] mono by metis
  have wd: "price (downward res ! Suc k) \<le> price (downward res ! k)"
    if mono: "\<forall>t1 t2 p1 p2. t1 < t2 \<and> tickIndexToPrice m t1 dA dB = Inr p1
              \<and> tickIndexToPrice m t2 dA dB = Inr p2
            \<longrightarrow> toFixedDecimal m p1 dB \<le> toFixedDecimal m p2 dB"
      and k: "Suc k < length (downward res)" for k
    using cd [OF k] td [OF k] mono by metis
  show ?thesis using tu td pu pd wu wd by blast
qed

text \<open>
  Witness for C8: bucket 0 loaded, spacing 64, current tick 5500. Upward: two full steps
  and one capped step; downward: ten steps.
\<close>

theorem price_strictly_monotonic_witness:
  "listTradableAmounts sample_sdk
     \<lparr>tickSpacing = 64, tickCurrentIndex = 5500, sqrtPrice = 1005500, liquidity = 1000000\<rparr>
     [Some (zero_array 0)] 6 6 =
   Inr \<lparr>upward =
          [\<lparr>tickIndex = 5504, price = 5504, amountA = 4000000, amountB = 4000000\<rparr>,
           \<lparr>tickIndex = 5568, price = 5568, amountA = 64000000, amountB = 64000000\<rparr>,
           \<lparr>tickIndex = 5631, price = 5631, amountA = 63000000, amountB = 63000000\<rparr>],
        downward =
          [\<lparr>tickIndex = 5440, price = 5440, amountA = 60000000, amountB = 60000000\<rparr>,
           \<lparr>tickIndex = 5376, price = 5376, amountA = 64000000, amountB = 64000000\<rparr>,
           \<lparr>tickIndex = 5312, price = 5312, amountA = 64000000, amountB = 64000000\<rparr>,
           \<lparr>tickIndex = 5248, price = 5248, amountA = 64000000, amountB = 64000000\<rparr>,
           \<lparr>tickIndex = 5184, price = 5184, amountA = 64000000, amountB = 64000000\<rparr>,
           \<lparr>tickIndex = 5120, price = 5120, amountA = 64000000, amountB = 64000000\<rparr>,
           \<lparr>tickIndex = 5056, price = 5056, amountA = 64000000, amountB = 64000000\<rparr>,
           \<lparr>tickIndex = 4992, price = 4992, amountA = 64000000, amountB = 64000000\<rparr>,
           \<lparr>tickIndex = 4928, price = 4928, amountA = 64000000, amountB = 64000000\<rparr>,
           \<lparr>tickIndex = 4864, price = 4864, amountA = 64000000, amountB = 64000000\<rparr>],
        error = False\<rparr> \<and>
   (5504::rat) < 5568 \<and> (5568::rat) < 5631 \<and> (5376::rat) < 5440"
proof -
  let ?R = "\<lparr>upward =
          [\<lparr>tickIndex = 5504, price = 5504, amountA = 4000000, amountB = 4000000\<rparr>,
           \<lparr>tickIndex = 5568, price = 5568, amountA = 64000000, amountB = 64000000\<rparr>,
           \<lparr>tickIndex = 5631, price = 5631, amountA = 63000000, amountB = 63000000\<rparr>],
        downward =
          [\<lparr>tickIndex = 5440, price = 5440, amountA = 60000000, amountB = 60000000\<rparr>,
           \<lparr>tickIndex = 5376, price = 5376, amountA = 64000000, amountB = 64000000\<rparr>,
           \<lparr>tickIndex = 5312, price = 5312, amountA = 64000000, amountB = 64000000\<rparr>,
           \<lparr>tickIndex = 5248, price = 5248, amountA = 64000000, amountB = 64000000\<rparr>,
           \<lparr>tickIndex = 5184, price = 5184, amountA = 64000000, amountB = 64000000\<rparr>,
           \<lparr>tickIndex = 5120, price = 5120, amountA = 64000000, amountB = 64000000\<rparr>,
           \<lparr>tickIndex = 5056, price = 5056, amountA = 64000000, amountB = 64000000\<rparr>,
           \<lparr>tickIndex = 4992, price = 4992, amountA = 64000000, amountB = 64000000\<rparr>,
           \<lparr>tickIndex = 4928, price = 4928, amountA = 64000000, amountB = 64000000\<rparr>,
           \<lparr>tickIndex = 4864, price = 4864, amountA = 64000000, amountB = 64000000\<rparr>],
        error = False\<rparr>"
  have h: "listTradableAmounts sample_sdk
     \<lparr>tickSpacing = 64, tickCurrentIndex = 5500, sqrtPrice = 1005500, liquidity = 1000000\<rparr>
     [Some (zero_array 0)] 6 6 = Inr ?R"
    by code_simp
  have strict: "\<forall>t1 t2 p1 p2. t1 < t2 \<and> tickIndexToPrice sample_sdk t1 6 6 = Inr p1
            \<and> tickIndexToPrice sample_sdk t2 6 6 = Inr p2
          \<longrightarrow> toFixedDecimal sample_sdk p1 6 < toFixedDecimal sample_sdk p2 6"
    by (auto simp: sample_sdk_def)
  have pos: "0 < tickSpacing \<lparr>tickSpacing = 64, tickCurrentIndex = 5500, sqrtPrice = 1005500, liquidity = 1000000\<rparr>"
    by simp
  note m = price_strictly_monotonic [OF pos h]
  from m strict have "price (upward ?R ! 0) < price (upward ?R ! Suc 0)"
    and "price (upward ?R ! Suc 0) < price (upward ?R ! Suc (Suc 0))"
    and "price (downward ?R ! Suc 0) < price (downward ?R ! 0)" by simp_all
  then show ?thesis using h by simp
qed

text \<open>
  Counterexample to C8 as stated: bucket 0 loaded, spacing 1, current tick 85, two
  decimal digits, and a \<open>toFixedDecimal\<close> that rounds. The two upward records, at ticks 86
  and 87, have the same price 1.01.
\<close>

theorem price_strictly_monotonic_counterexample:
  "map_sum id (\<lambda>r. (map tickIndex (upward r), map price (upward r)))
     (listTradableAmounts rounding_sdk
        \<lparr>tickSpacing = 1, tickCurrentIndex = 85, sqrtPrice = 1000085, liquidity = 1000000\<rparr>
        [Some (zero_array 0)] 6 2) =
   Inr ([86, 87], [101 / 100, 101 / 100])"
  by code_simp

text \<open>
  C10. With tick spacing 1, the upward records of \<open>listTradableAmounts\<close> are exactly the
  full steps to the consecutive ticks above the current one, every one of them a known
  tick, and when fewer than ten records are returned the next tick is not loaded: at the
  first tick that is not loaded the loop stops without a record, as the downward loop
  does, and no capped record is ever pushed. The reason is the last conjunct: at
  iteration \<open>i\<close> the working tick is the candidate minus one, so the decremented
  candidate of a tick that is not loaded is not above the working tick.
\<close>

theorem spacing_one_never_capped:
  assumes "tickSpacing wp = 1" and "listTradableAmounts m wp tas dA dB = Inr res"
  shows "map tickIndex (upward res) =
           map (\<lambda>j. tickCurrentIndex wp + 1 + int j) [0..<length (upward res)] \<and>
         (\<forall>r\<in>set (upward res). getTick (tickIndex r) 1 tas \<noteq> None) \<and>
         (length (upward res) < 10 \<longrightarrow>
            getTick (tickCurrentIndex wp + 1 + int (length (upward res))) 1 tas = None) \<and>
         (\<forall>i sp lq. i < 10 \<and> getTick (tickCurrentIndex wp + 1 + int i * 1) 1 tas = None \<longrightarrow>
            upwardTradableAmount m 1 tas dA dB (tickCurrentIndex wp + 1) i
              (tickCurrentIndex wp + int i) sp lq = Inr [])"
proof -
  have "\<forall>i sp lq. i < 10 \<and> getTick (tickCurrentIndex wp + 1 + int i * 1) 1 tas = None \<longrightarrow>
            upwardTradableAmount m 1 tas dA dB (tickCurrentIndex wp + 1) i
              (tickCurrentIndex wp + int i) sp lq = Inr []"
    by (auto simp: upward_unfold_unknown)
  then show ?thesis
    using upward_spacing_one [of m tas dA dB "tickCurrentIndex wp + 1" 0 "sqrtPrice wp"
        "liquidity wp" "upward res"] listTradableAmounts_Inr(2) [OF assms(2)] assms(1)
    by simp
qed

text \<open>
  Witness for C10: bucket 0 (ticks 0 to 87) loaded, spacing 1, current tick 85. Upward:
  the two known ticks 86 and 87, and nothing for tick 88, which is not loaded.
\<close>

theorem spacing_one_never_capped_witness:
  "listTradableAmounts sample_sdk
     \<lparr>tickSpacing = 1, tickCurrentIndex = 85, sqrtPrice = 1000085, liquidity = 1000000\<rparr>
     [Some (zero_array 0)] 6 6 =
   Inr \<lparr>upward =
          [\<lparr>tickIndex = 86, price = 86, amountA = 1000000, amountB = 1000000\<rparr>,
           \<lparr>tickIndex = 87, price = 87, amountA = 1000000, amountB = 1000000\<rparr>],
        downward =
          [\<lparr>tickIndex = 85, price = 85, amountA = 0, amountB = 0\<rparr>,
           \<lparr>tickIndex = 84, price = 84, amountA = 1000000, amountB = 1000000\<rparr>,
           \<lparr>tickIndex = 83, price = 83, amountA = 1000000, amountB = 1000000\<rparr>,
           \<lparr>tickIndex = 82, price = 82, amountA = 1000000, amountB = 1000000\<rparr>,
           \<lparr>tickIndex = 81, price = 81, amountA = 1000000, amountB = 1000000\<rparr>,
           \<lparr>tickIndex = 80, price = 80, amountA = 1000000, amountB = 1000000\<rparr>,
           \<lparr>tickIndex = 79, price = 79, amountA = 1000000, amountB = 1000000\<rparr>,
           \<lparr>tickIndex = 78, price = 78, amountA = 1000000, amountB = 1000000\<rparr>,
           \<lparr>tickIndex = 77, price = 77, amountA = 1000000, amountB = 1000000\<rparr>,
           \<lparr>tickIndex = 76, price = 76, amountA = 1000000, amountB = 1000000\<rparr>],
        error = False\<rparr> \<and>
   getTick 86 1 [Some (zero_array 0)] \<noteq> None \<and>
   getTick 87 1 [Some (zero_array 0)] \<noteq> None \<and>
   getTick 88 1 [Some (zero_array 0)] = None \<and>
   upwardTradableAmount sample_sdk 1 [Some (zero_array 0)] 6 6 86 2 87 1000087 1000000 = Inr []"
proof -
  let ?R = "\<lparr>upward =
          [\<lparr>tickIndex = 86, price = 86, amountA = 1000000, amountB = 1000000\<rparr>,
           \<lparr>tickIndex = 87, price = 87, amountA = 1000000, amountB = 1000000\<rparr>],
        downward =
          [\<lparr>tickIndex = 85, price = 85, amountA = 0, amountB = 0\<rparr>,
           \<lparr>tickIndex = 84, price = 84, amountA = 1000000, amountB = 1000000\<rparr>,
           \<lparr>tickIndex = 83, price = 83, amountA = 1000000, amountB = 1000000\<rparr>,
           \<lparr>tickIndex = 82, price = 82, amountA = 1000000, amountB = 1000000\<rparr>,
           \<lparr>tickIndex = 81, price = 81, amountA = 1000000, amountB = 1000000\<rparr>,
           \<lparr>tickIndex = 80, price = 80, amountA = 1000000, amountB = 1000000\<rparr>,
           \<lparr>tickIndex = 79, price = 79, amountA = 1000000, amountB = 1000000\<rparr>,
           \<lparr>tickIndex = 78, price = 78, amountA = 1000000, amountB = 1000000\<rparr>,
           \<lparr>tickIndex = 77, price = 77, amountA = 1000000, amountB = 1000000\<rparr>,
           \<lparr>tickIndex = 76, price = 76, amountA = 1000000, amountB = 1000000\<rparr>],
        error = False\<rparr>"
  have h: "listTradableAmounts sample_sdk
     \<lparr>tickSpacing = 1, tickCurrentIndex = 85, sqrtPrice = 1000085, liquidity = 1000000\<rparr>
     [Some (zero_array 0)] 6 6 = Inr ?R"
    by code_simp
  have one: "tickSpacing \<lparr>tickSpacing = 1, tickCurrentIndex = 85, sqrtPrice = 1000085, liquidity = 1000000\<rparr> = 1"
    by simp
  have un: "getTick 88 1 [Some (zero_array 0)] = None"
    by (simp add: getStartTickIndex_def TICK_ARRAY_SIZE_def zero_array_def)
  note inst = spacing_one_never_capped [OF one h]
  from inst have "\<forall>i sp lq. i < 10 \<and> getTick (85 + 1 + int i * 1) 1 [Some (zero_array 0)] = None \<longrightarrow>
      upwardTradableAmount sample_sdk 1 [Some (zero_array 0)] 6 6 (85 + 1) i (85 + int i) sp lq
        = Inr []"
    by simp
  then have "(2::nat) < 10 \<and> getTick (85 + 1 + int 2 * 1) 1 [Some (zero_array 0)] = None \<longrightarrow>
      upwardTradableAmount sample_sdk 1 [Some (zero_array 0)] 6 6 (85 + 1) 2 (85 + int 2)
        1000087 1000000 = Inr []"
    by blast
  then have last: "upwardTradableAmount sample_sdk 1 [Some (zero_array 0)] 6 6 86 2 87
        1000087 1000000 = Inr []"
    using un by simp
  show ?thesis using inst h last
    by (simp add: getStartTickIndex_def TICK_ARRAY_SIZE_def zero_array_def)
qed


section \<open>The per-bucket loops\<close>

lemma smod_zero_iff_dvd: "(k smod l = 0) = (l dvd k)" for k l :: int
proof -
  have "(k smod l = 0) = (k = 0 \<or> \<bar>k\<bar> mod \<bar>l\<bar> = 0)"
    by (simp add: signed_modulo_int_def sgn_eq_0_iff)
  also have "\<dots> = (k = 0 \<or> \<bar>l\<bar> dvd \<bar>k\<bar>)"
    by (simp add: mod_eq_0_iff_dvd)
  also have "\<dots> = (l dvd k)" by auto
  finally show ?thesis .
qed

lemma smod_ticks: "0 < ts \<Longrightarrow> ((x * ts) smod (ts * TICK_ARRAY_SIZE) = 0) = (88 dvd x)" for x ts :: int
  by (simp add: smod_zero_iff_dvd TICK_ARRAY_SIZE_def mult.commute)

lemma dvd_88_upper: "88 dvd z \<Longrightarrow> 88 * a < z \<Longrightarrow> z \<le> 88 * a + 88 \<Longrightarrow> z = 88 * a + 88" for z a :: int
  by (elim dvdE) simp

lemma dvd_88_lower: "88 dvd z \<Longrightarrow> 88 * a \<le> z \<Longrightarrow> z < 88 * a + 88 \<Longrightarrow> z = 88 * a" for z a :: int
  by (elim dvdE) simp


lemma upwardAmount_unfold:
  "upwardAmount m ts tas dA dB T u lst i sp lq idx accA accB =
     (if u + int i * ts > lst then Some (Inr (accA, accB))
      else (case step_amounts m dA dB sp lq (u + int i * ts) False True of
              Inl e \<Rightarrow> Some (Inl e)
            | Inr (nsp, np, da, db) \<Rightarrow>
                if idx < length accA \<and> idx < length accB
                then upwardAmount m ts tas dA dB T u lst (i + 1) nsp
                       (case getTick (u + int i * ts) ts tas of
                          None \<Rightarrow> lq
                        | Some t \<Rightarrow> lq + liquidityNet t)
                       (if (u + int i * ts) smod T = 0 then idx + 1 else idx)
                       (accA[idx := accA ! idx + da]) (accB[idx := accB ! idx + db])
                else Some (Inl Type_error)))"
  by (subst upwardAmount.simps) (simp add: Let_def)

lemma downwardAmount_unfold:
  "downwardAmount m ts tas dA dB T l lst i sp lq idx accA accB =
     (if l - int i * ts < lst then Some (Inr (accA, accB))
      else (case step_amounts m dA dB sp lq (l - int i * ts) True False of
              Inl e \<Rightarrow> Some (Inl e)
            | Inr (nsp, np, da, db) \<Rightarrow>
                if idx < length accA \<and> idx < length accB
                then downwardAmount m ts tas dA dB T l lst (i + 1) nsp
                       (case getTick (l - int i * ts) ts tas of
                          None \<Rightarrow> lq
                        | Some t \<Rightarrow> lq - liquidityNet t)
                       (if (l - int i * ts) smod T = 0 then idx + 1 else idx)
                       (accA[idx := accA ! idx + da]) (accB[idx := accB ! idx + db])
                else Some (Inl Type_error)))"
  by (subst downwardAmount.simps) (simp add: Let_def)

lemma upwardAmount_returns:
  assumes ts: "0 < ts"
    and T: "T = ts * TICK_ARRAY_SIZE" and u: "u = (q + 1) * ts"
    and bound: "lst \<le> 88 * (A + int n) * ts"
  shows "88 * (A + int idx) \<le> q + int i \<Longrightarrow> q + int i < 88 * (A + int idx) + 88 \<Longrightarrow>
     length accA = n \<Longrightarrow> length accB = n \<Longrightarrow>
     \<exists>res. upwardAmount m ts tas dA dB T u lst i sp lq idx accA accB = Some res \<and>
       (\<forall>a b. res = Inr (a, b) \<longrightarrow> length a = n \<and> length b = n) \<and>
       ((\<forall>sp' lq' t ra rb. \<not> isl (step_amounts m dA dB sp' lq' t ra rb)) \<longrightarrow> \<not> isl res)"
proof (induction "nat (lst + 1 - (u + int i * ts))" arbitrary: i sp lq idx accA accB rule: less_induct)
  case less
  show ?case
  proof (cases "u + int i * ts > lst")
    case True
    then show ?thesis by (subst upwardAmount_unfold) (simp add: less.prems)
  next
    case False
    have cand: "u + int i * ts = (q + 1 + int i) * ts" by (simp add: u algebra_simps)
    have "(q + 1 + int i) * ts \<le> (88 * (A + int n)) * ts" using False bound cand by simp
    then have x: "q + 1 + int i \<le> 88 * (A + int n)" using ts by (simp only: mult_le_cancel_right)
    have "88 * int idx < 88 * int n" using x less.prems(1) by (simp add: distrib_left)
    then have idxn: "idx < n" by simp
    show ?thesis
    proof (cases "step_amounts m dA dB sp lq (u + int i * ts) False True")
      case (Inl e)
      have "upwardAmount m ts tas dA dB T u lst i sp lq idx accA accB = Some (Inl e)"
        using False Inl by (subst upwardAmount_unfold) simp
      moreover have "\<not> (\<forall>sp' lq' t ra rb. \<not> isl (step_amounts m dA dB sp' lq' t ra rb))"
        using Inl by (metis isl_def)
      ultimately show ?thesis by simp
    next
      case (Inr v)
      obtain nsp np da db where v: "v = (nsp, np, da, db)" by (cases v) auto
      let ?idx' = "if (u + int i * ts) smod T = 0 then idx + 1 else idx"
      let ?lq' = "case getTick (u + int i * ts) ts tas of None \<Rightarrow> lq | Some t \<Rightarrow> lq + liquidityNet t"
      have eq: "upwardAmount m ts tas dA dB T u lst i sp lq idx accA accB =
          upwardAmount m ts tas dA dB T u lst (i + 1) nsp ?lq' ?idx'
            (accA[idx := accA ! idx + da]) (accB[idx := accB ! idx + db])"
        using False Inr v idxn less.prems(3,4) by (subst upwardAmount_unfold) simp
      have dv: "((u + int i * ts) smod T = 0) = (88 dvd (q + 1 + int i))"
        unfolding cand T using ts by (rule smod_ticks)
      have inv1: "88 * (A + int ?idx') \<le> q + int (i + 1)"
      proof (cases "88 dvd (q + 1 + int i)")
        case True
        have "q + 1 + int i = 88 * (A + int idx) + 88"
          using True less.prems(1,2) by (intro dvd_88_upper) simp_all
        then show ?thesis using True dv by simp
      next
        case False
        then show ?thesis using dv less.prems(1) by simp
      qed
      have inv2: "q + int (i + 1) < 88 * (A + int ?idx') + 88"
      proof (cases "88 dvd (q + 1 + int i)")
        case True
        then show ?thesis using dv less.prems(2) by simp
      next
        case False
        have "q + 1 + int i \<noteq> 88 * (A + int idx) + 88"
        proof
          assume "q + 1 + int i = 88 * (A + int idx) + 88"
          then have "q + 1 + int i = 88 * (A + int idx + 1)" by simp
          then have "88 dvd (q + 1 + int i)" by (simp only: dvd_triv_left)
          then show False using False by simp
        qed
        then show ?thesis using False dv less.prems(2) by simp
      qed
      have meas: "nat (lst + 1 - (u + int (i + 1) * ts)) < nat (lst + 1 - (u + int i * ts))"
        using ts False by (simp add: algebra_simps)
      have l1: "length (accA[idx := accA ! idx + da]) = n"
        and l2: "length (accB[idx := accB ! idx + db]) = n"
        using less.prems(3,4) by simp_all
      show ?thesis unfolding eq by (rule less.hyps [OF meas inv1 inv2 l1 l2])
    qed
  qed
qed

lemma downwardAmount_returns:
  assumes ts: "0 < ts"
    and T: "T = ts * TICK_ARRAY_SIZE" and l: "l = q * ts"
    and bound: "88 * (A - int n + 1) * ts \<le> lst"
  shows "88 * (A - int idx) \<le> q - int i \<Longrightarrow> q - int i < 88 * (A - int idx) + 88 \<Longrightarrow>
     length accA = n \<Longrightarrow> length accB = n \<Longrightarrow>
     \<exists>res. downwardAmount m ts tas dA dB T l lst i sp lq idx accA accB = Some res \<and>
       (\<forall>a b. res = Inr (a, b) \<longrightarrow> length a = n \<and> length b = n) \<and>
       ((\<forall>sp' lq' t ra rb. \<not> isl (step_amounts m dA dB sp' lq' t ra rb)) \<longrightarrow> \<not> isl res)"
proof (induction "nat (l - int i * ts - lst + 1)" arbitrary: i sp lq idx accA accB rule: less_induct)
  case less
  show ?case
  proof (cases "l - int i * ts < lst")
    case True
    then show ?thesis by (subst downwardAmount_unfold) (simp add: less.prems)
  next
    case False
    have cand: "l - int i * ts = (q - int i) * ts" by (simp add: l algebra_simps)
    have "(88 * (A - int n + 1)) * ts \<le> (q - int i) * ts" using False bound cand by simp
    then have x: "88 * (A - int n + 1) \<le> q - int i" using ts by (simp only: mult_le_cancel_right)
    have "88 * int idx < 88 * int n" using x less.prems(2) by (simp add: algebra_simps)
    then have idxn: "idx < n" by simp
    show ?thesis
    proof (cases "step_amounts m dA dB sp lq (l - int i * ts) True False")
      case (Inl e)
      have "downwardAmount m ts tas dA dB T l lst i sp lq idx accA accB = Some (Inl e)"
        using False Inl by (subst downwardAmount_unfold) simp
      moreover have "\<not> (\<forall>sp' lq' t ra rb. \<not> isl (step_amounts m dA dB sp' lq' t ra rb))"
        using Inl by (metis isl_def)
      ultimately show ?thesis by simp
    next
      case (Inr v)
      obtain nsp np da db where v: "v = (nsp, np, da, db)" by (cases v) auto
      let ?idx' = "if (l - int i * ts) smod T = 0 then idx + 1 else idx"
      let ?lq' = "case getTick (l - int i * ts) ts tas of None \<Rightarrow> lq | Some t \<Rightarrow> lq - liquidityNet t"
      have eq: "downwardAmount m ts tas dA dB T l lst i sp lq idx accA accB =
          downwardAmount m ts tas dA dB T l lst (i + 1) nsp ?lq' ?idx'
            (accA[idx := accA ! idx + da]) (accB[idx := accB ! idx + db])"
        using False Inr v idxn less.prems(3,4) by (subst downwardAmount_unfold) simp
      have dv: "((l - int i * ts) smod T = 0) = (88 dvd (q - int i))"
        unfolding cand T using ts by (rule smod_ticks)
      have inv1: "88 * (A - int ?idx') \<le> q - int (i + 1)"
      proof (cases "88 dvd (q - int i)")
        case True
        then show ?thesis using dv less.prems(1) by simp
      next
        case False
        have "q - int i \<noteq> 88 * (A - int idx)"
        proof
          assume "q - int i = 88 * (A - int idx)"
          then have "88 dvd (q - int i)" by (simp only: dvd_triv_left)
          then show False using False by simp
        qed
        then show ?thesis using False dv less.prems(1) by simp
      qed
      have inv2: "q - int (i + 1) < 88 * (A - int ?idx') + 88"
      proof (cases "88 dvd (q - int i)")
        case True
        have "q - int i = 88 * (A - int idx)"
          using True less.prems(1,2) by (intro dvd_88_lower) simp_all
        then show ?thesis using True dv by simp
      next
        case False
        then show ?thesis using dv less.prems(2) by simp
      qed
      have meas: "nat (l - int (i + 1) * ts - lst + 1) < nat (l - int i * ts - lst + 1)"
        using ts False by (simp add: algebra_simps)
      have l1: "length (accA[idx := accA ! idx + da]) = n"
        and l2: "length (accB[idx := accB ! idx + db]) = n"
        using less.prems(3,4) by simp_all
      show ?thesis unfolding eq by (rule less.hyps [OF meas inv1 inv2 l1 l2])
    qed
  qed
qed

lemma sequence_err_length: "sequence_err xs = Inr ys \<Longrightarrow> length ys = length xs"
  by (induction xs arbitrary: ys) (auto split: sum.splits)

lemma sequence_err_returns: "(\<forall>x\<in>set xs. \<not> isl x) \<Longrightarrow> \<not> isl (sequence_err xs)"
  by (induction xs) (auto split: sum.splits)

lemma collect_window_returns:
  assumes "\<forall>j\<in>set js. 0 \<le> j \<and> nat j < length pks \<and> nat j < length idxs"
  shows "\<exists>W. collect_window pks idxs tas js = Inr W \<and> length W = length js"
proof -
  have "\<not> isl (collect_window pks idxs tas js)"
    unfolding collect_window_def using assms
    by (intro sequence_err_returns) (auto simp: nth_defined_def)
  then obtain W where W: "collect_window pks idxs tas js = Inr W"
    by (cases "collect_window pks idxs tas js") auto
  then have "length W = length js"
    unfolding collect_window_def by (auto dest: sequence_err_length)
  then show ?thesis using W by simp
qed

lemma tickArrayTradableAmount_list_length:
  "tickArrayTradableAmount_list m dA dB W a b = Inr rs \<Longrightarrow> length rs = length W"
  unfolding tickArrayTradableAmount_list_def by (auto dest: sequence_err_length)

lemma step_amounts_price_returns:
  assumes "\<forall>sp lq t ra rb. \<not> isl (step_amounts m dA dB sp lq t ra rb)"
  shows "\<not> isl (tickIndexToPrice m t dA dB)"
proof
  assume "isl (tickIndexToPrice m t dA dB)"
  then have "isl (step_amounts m dA dB 0 0 t False False)"
    by (auto simp: step_amounts_def isl_def split: sum.splits)
  then show False using assms by simp
qed

lemma tickArrayTradableAmount_list_returns:
  assumes "\<forall>sp lq t ra rb. \<not> isl (step_amounts m dA dB sp lq t ra rb)"
  shows "\<not> isl (tickArrayTradableAmount_list m dA dB W a b)"
  unfolding tickArrayTradableAmount_list_def
proof (intro sequence_err_returns ballI)
  fix x assume "x \<in> set (map (\<lambda>i. case W ! i of (pk, s, d) \<Rightarrow>
          (case tickIndexToPrice m s dA dB of Inl e \<Rightarrow> Inl e
           | Inr p \<Rightarrow> Inr \<lparr>tickArrayPubkey = pk, tickArrayStartIndex = s,
                    tickArrayStartPrice = toFixedDecimal m p dB, tickArrayData = d,
                    amountA = a ! i, amountB = b ! i\<rparr>)) [0..<length W])"
  then show "\<not> isl x"
    using step_amounts_price_returns [OF assms]
    by (auto split: prod.splits sum.splits simp: isl_def)
qed

lemma bucket_of_tick:
  assumes "0 < ts"
  shows "tc div (ts * TICK_ARRAY_SIZE) * (ts * TICK_ARRAY_SIZE) = 88 * (tc div ts div 88) * ts"
    and "88 * (tc div ts div 88) \<le> tc div ts"
    and "tc div ts < 88 * (tc div ts div 88) + 88"
proof -
  have "tc div (ts * 88) = tc div ts div 88" by (rule zdiv_zmult2_eq) simp
  then show "tc div (ts * TICK_ARRAY_SIZE) * (ts * TICK_ARRAY_SIZE) = 88 * (tc div ts div 88) * ts"
    by (simp add: TICK_ARRAY_SIZE_def)
  have "tc div ts = 88 * (tc div ts div 88) + tc div ts mod 88" by simp
  moreover have "0 \<le> tc div ts mod 88" "tc div ts mod 88 < 88" by simp_all
  ultimately show "88 * (tc div ts div 88) \<le> tc div ts" "tc div ts < 88 * (tc div ts div 88) + 88"
    by linarith+
qed


lemma currentTickArrayIndex_of_position:
  "T \<noteq> 0 \<Longrightarrow> cs - s0 = int c * T \<Longrightarrow>
     currentTickArrayIndex_of cs T (s0 # rest) = Inr (Some (int c))"
  by (simp add: currentTickArrayIndex_of_def)



section \<open>The per-bucket simulator\<close>

text \<open>
  C7. For a window of contiguous ascending buckets, with one pubkey per start index, that
  holds the bucket of the current tick at position \<open>c\<close>, and a positive tick spacing:
  \<open>listTickArrayTradableAmounts\<close> returns; when it returns a result, the upward direction
  has one record per bucket from position \<open>c\<close> to the end of the window and the downward
  direction one record per bucket from position \<open>c\<close> down to the start, whatever buckets
  are loaded; and it returns a result whenever the collaborator never raises.
\<close>

theorem one_record_per_bucket:
  assumes ts: "0 < tickSpacing wp"
    and c: "c < length idxs"
    and len: "length pks = length idxs"
    and contiguous: "\<forall>k<length idxs. idxs ! k = idxs ! 0 + int k * (tickSpacing wp * TICK_ARRAY_SIZE)"
    and current: "idxs ! c = tickCurrentIndex wp div (tickSpacing wp * TICK_ARRAY_SIZE)
                              * (tickSpacing wp * TICK_ARRAY_SIZE)"
  shows "\<exists>res. listTickArrayTradableAmounts m wp idxs pks tas dA dB = Some res \<and>
           (\<forall>r. res = Inr r \<longrightarrow>
              length (upward r) = length idxs - c \<and> length (downward r) = c + 1) \<and>
           ((\<forall>sp lq t ra rb. \<not> isl (step_amounts m dA dB sp lq t ra rb)) \<longrightarrow> \<not> isl res)"
proof -
  let ?ts = "tickSpacing wp"
  let ?T = "?ts * TICK_ARRAY_SIZE"
  let ?cs = "tickCurrentIndex wp div ?T * ?T"
  let ?q = "tickCurrentIndex wp div ?ts"
  let ?A = "?q div 88"
  let ?NR = "\<forall>sp lq t ra rb. \<not> isl (step_amounts m dA dB sp lq t ra rb)"
  note b = bucket_of_tick [OF ts, of "tickCurrentIndex wp"]
  have Tpos: "0 < ?T" using ts by (simp add: TICK_ARRAY_SIZE_def)
  obtain s0 rest where idxs: "idxs = s0 # rest" using c by (cases idxs) auto
  have "idxs ! c = idxs ! 0 + int c * ?T" using contiguous c by blast
  then have diff: "?cs - s0 = int c * ?T" using current idxs by simp
  have cti: "currentTickArrayIndex_of ?cs ?T idxs = Inr (Some (int c))"
  proof -
    have "?T \<noteq> 0" using ts by (simp add: TICK_ARRAY_SIZE_def)
    then show ?thesis unfolding idxs using diff by (rule currentTickArrayIndex_of_position)
  qed
  \<comment> \<open>upward sub-window\<close>
  have "\<forall>j\<in>set [int c..int (length pks) - 1]. 0 \<le> j \<and> nat j < length pks \<and> nat j < length idxs"
    using len by auto
  from collect_window_returns [OF this, of tas] obtain Wu where
    Wu: "collect_window pks idxs tas [int c..int (length pks) - 1] = Inr Wu"
    and lWu: "length Wu = length idxs - c"
    using c len by auto
  have bu: "min (MAX_TICK_INDEX m) (?cs + int (length Wu) * ?T) \<le> 88 * (?A + int (length Wu)) * ?ts"
    unfolding b(1) by (simp add: TICK_ARRAY_SIZE_def algebra_simps)
  have uu: "?q * ?ts + ?ts = (?q + 1) * ?ts" by (simp add: algebra_simps)
  have "\<exists>res. upwardAmount m ?ts tas dA dB ?T (?q * ?ts + ?ts)
             (min (MAX_TICK_INDEX m) (?cs + int (length Wu) * ?T)) 0 (sqrtPrice wp)
             (liquidity wp) 0 (replicate (length Wu) 0) (replicate (length Wu) 0) = Some res \<and>
           (\<forall>a b. res = Inr (a, b) \<longrightarrow> length a = length Wu \<and> length b = length Wu) \<and>
           (?NR \<longrightarrow> \<not> isl res)"
    by (rule upwardAmount_returns [OF ts refl uu bu]) (use b(2,3) in simp_all)
  then obtain resU where
    resU: "upwardAmount m ?ts tas dA dB ?T (?q * ?ts + ?ts)
             (min (MAX_TICK_INDEX m) (?cs + int (length Wu) * ?T)) 0 (sqrtPrice wp)
             (liquidity wp) 0 (replicate (length Wu) 0) (replicate (length Wu) 0) = Some resU"
    and nrU: "?NR \<longrightarrow> \<not> isl resU"
    by blast
  \<comment> \<open>downward sub-window\<close>
  have "\<forall>j\<in>set (rev [0..int c]). 0 \<le> j \<and> nat j < length pks \<and> nat j < length idxs"
    using len c by auto
  from collect_window_returns [OF this, of tas] obtain Wd where
    Wd: "collect_window pks idxs tas (rev [0..int c]) = Inr Wd"
    and lWd: "length Wd = c + 1"
    by auto
  have bd: "88 * (?A - int (length Wd) + 1) * ?ts
              \<le> max (MIN_TICK_INDEX m) (?cs - (int (length Wd) - 1) * ?T)"
    unfolding b(1) by (simp add: TICK_ARRAY_SIZE_def algebra_simps)
  have "\<exists>res. downwardAmount m ?ts tas dA dB ?T (?q * ?ts)
             (max (MIN_TICK_INDEX m) (?cs - (int (length Wd) - 1) * ?T)) 0 (sqrtPrice wp)
             (liquidity wp) 0 (replicate (length Wd) 0) (replicate (length Wd) 0) = Some res \<and>
           (\<forall>a b. res = Inr (a, b) \<longrightarrow> length a = length Wd \<and> length b = length Wd) \<and>
           (?NR \<longrightarrow> \<not> isl res)"
    by (rule downwardAmount_returns [OF ts refl refl bd]) (use b(2,3) in simp_all)
  then obtain resD where
    resD: "downwardAmount m ?ts tas dA dB ?T (?q * ?ts)
             (max (MIN_TICK_INDEX m) (?cs - (int (length Wd) - 1) * ?T)) 0 (sqrtPrice wp)
             (liquidity wp) 0 (replicate (length Wd) 0) (replicate (length Wd) 0) = Some resD"
    and nrD: "?NR \<longrightarrow> \<not> isl resD"
    by blast
  have ts0: "tickSpacing wp \<noteq> 0" using ts by simp
  define NR where "NR = ?NR"
  have nrL: "\<not> isl (tickArrayTradableAmount_list m dA dB W a b)" if NR for W a b
    using that tickArrayTradableAmount_list_returns [of m dA dB W a b] by (simp add: NR_def)
  have nrU': "NR \<Longrightarrow> \<not> isl resU" and nrD': "NR \<Longrightarrow> \<not> isl resD"
    using nrU nrD by (simp_all add: NR_def)
  have F: "listTickArrayTradableAmounts m wp idxs pks tas dA dB =
     (case resU of
        Inl e \<Rightarrow> Some (Inl e)
      | Inr (uA, uB) \<Rightarrow>
     (case resD of
        Inl e \<Rightarrow> Some (Inl e)
      | Inr (dwA, dwB) \<Rightarrow>
     (case tickArrayTradableAmount_list m dA dB Wu uA uB of
        Inl e \<Rightarrow> Some (Inl e)
      | Inr up \<Rightarrow>
     (case tickArrayTradableAmount_list m dA dB Wd dwA dwB of
        Inl e \<Rightarrow> Some (Inl e)
      | Inr down \<Rightarrow> Some (Inr \<lparr>upward = up, downward = down, error = False\<rparr>)))))"
    unfolding listTickArrayTradableAmounts_def Let_def
    by (simp only: ts0 if_False cti sum.case option.case Wu resU Wd resD)
  have "\<exists>res. listTickArrayTradableAmounts m wp idxs pks tas dA dB = Some res \<and>
           (\<forall>r. res = Inr r \<longrightarrow>
              length (upward r) = length idxs - c \<and> length (downward r) = c + 1) \<and>
           (NR \<longrightarrow> \<not> isl res)"
  proof (cases resU)
    case (Inl e)
    then show ?thesis unfolding F using nrU' by auto
  next
    case U: (Inr ab)
    obtain uA uB where ab: "ab = (uA, uB)" by (cases ab) auto
    show ?thesis
    proof (cases resD)
      case (Inl e)
      then show ?thesis unfolding F U ab using nrD' by auto
    next
      case D: (Inr cd)
      obtain dwA dwB where cd: "cd = (dwA, dwB)" by (cases cd) auto
      show ?thesis
      proof (cases "tickArrayTradableAmount_list m dA dB Wu uA uB")
        case (Inl e)
        then show ?thesis unfolding F U ab D cd using nrL [of Wu uA uB] by auto
      next
        case LU: (Inr up)
        have lup: "length up = length idxs - c"
          using tickArrayTradableAmount_list_length [OF LU] lWu by simp
        show ?thesis
        proof (cases "tickArrayTradableAmount_list m dA dB Wd dwA dwB")
          case (Inl e)
          then show ?thesis unfolding F U ab D cd using LU nrL [of Wd dwA dwB] by auto
        next
          case LD: (Inr down)
          have ldn: "length down = c + 1"
            using tickArrayTradableAmount_list_length [OF LD] lWd by simp
          show ?thesis unfolding F U ab D cd using LU LD lup ldn by simp
        qed
      qed
    qed
  qed
  then show ?thesis unfolding NR_def .
qed

text \<open>
  Witness for C7: spacing 1, current tick 100, a window of the three buckets 0, 88 and
  176, none of them loaded; the current bucket is at position 1. Two upward records
  (buckets 88 and 176) and two downward records (buckets 88 and 0).
\<close>

theorem one_record_per_bucket_witness:
  "listTickArrayTradableAmounts sample_sdk
     \<lparr>tickSpacing = 1, tickCurrentIndex = 100, sqrtPrice = 1000100, liquidity = 1000000\<rparr>
     [0, 88, 176] [''a'', ''b'', ''c''] [None, None, None] 6 6 =
   Some (Inr \<lparr>upward =
          [\<lparr>tickArrayPubkey = ''b'', tickArrayStartIndex = 88,
              tickArrayStartPrice = 88, tickArrayData = None,
              amountA = 76000000, amountB = 76000000\<rparr>,
           \<lparr>tickArrayPubkey = ''c'', tickArrayStartIndex = 176,
              tickArrayStartPrice = 176, tickArrayData = None,
              amountA = 88000000, amountB = 88000000\<rparr>],
          downward =
            [\<lparr>tickArrayPubkey = ''b'', tickArrayStartIndex = 88,
                tickArrayStartPrice = 88, tickArrayData = None,
                amountA = 12000000, amountB = 12000000\<rparr>,
             \<lparr>tickArrayPubkey = ''a'', tickArrayStartIndex = 0,
                tickArrayStartPrice = 0, tickArrayData = None,
                amountA = 88000000, amountB = 88000000\<rparr>],
          error = False\<rparr>)"
proof -
  let ?wp = "\<lparr>tickSpacing = 1, tickCurrentIndex = 100, sqrtPrice = 1000100, liquidity = 1000000\<rparr>"
  have h: "listTickArrayTradableAmounts sample_sdk ?wp
     [0, 88, 176] [''a'', ''b'', ''c''] [None, None, None] 6 6 =
   Some (Inr \<lparr>upward =
          [\<lparr>tickArrayPubkey = ''b'', tickArrayStartIndex = 88,
              tickArrayStartPrice = 88, tickArrayData = None,
              amountA = 76000000, amountB = 76000000\<rparr>,
           \<lparr>tickArrayPubkey = ''c'', tickArrayStartIndex = 176,
              tickArrayStartPrice = 176, tickArrayData = None,
              amountA = 88000000, amountB = 88000000\<rparr>],
          downward =
            [\<lparr>tickArrayPubkey = ''b'', tickArrayStartIndex = 88,
                tickArrayStartPrice = 88, tickArrayData = None,
                amountA = 12000000, amountB = 12000000\<rparr>,
             \<lparr>tickArrayPubkey = ''a'', tickArrayStartIndex = 0,
                tickArrayStartPrice = 0, tickArrayData = None,
                amountA = 88000000, amountB = 88000000\<rparr>],
          error = False\<rparr>)"
    by code_simp
  have a1: "0 < tickSpacing ?wp" by simp
  have a2: "1 < length [0, 88, 176 :: int]" by simp
  have a3: "length [''a'', ''b'', ''c''] = length [0, 88, 176 :: int]" by simp
  have a4: "\<forall>k<length [0, 88, 176 :: int].
      [0, 88, 176] ! k = [0, 88, 176] ! 0 + int k * (tickSpacing ?wp * TICK_ARRAY_SIZE)"
    by (auto simp: TICK_ARRAY_SIZE_def less_Suc_eq numeral_3_eq_3)
  have a5: "[0, 88, 176] ! 1 = tickCurrentIndex ?wp div (tickSpacing ?wp * TICK_ARRAY_SIZE)
                              * (tickSpacing ?wp * TICK_ARRAY_SIZE)"
    by (simp add: TICK_ARRAY_SIZE_def)
  show ?thesis
    using one_record_per_bucket [OF a1 a2 a3 a4 a5, of sample_sdk "[None, None, None]" 6 6] h
    by simp
qed





text \<open>
  C4. In both tick loops of \<open>listTickArrayTradableAmounts\<close>, an iteration whose candidate
  tick has no loaded bucket does not end the loop: unless the candidate is beyond the
  bound of the sub-window, the step's amounts are added to the accumulators and the loop
  goes on with the next iteration and an unchanged working liquidity, exactly as for a
  known tick whose \<open>liquidityNet\<close> is zero.
\<close>

theorem unknown_tick_zero_fill:
  "(getTick (u + int i * ts) ts tas = None
      \<or> (\<exists>t. getTick (u + int i * ts) ts tas = Some t \<and> liquidityNet t = 0) \<longrightarrow>
    upwardAmount m ts tas dA dB T u lst i sp lq idx accA accB =
      (if u + int i * ts > lst then Some (Inr (accA, accB))
       else (case step_amounts m dA dB sp lq (u + int i * ts) False True of
               Inl e \<Rightarrow> Some (Inl e)
             | Inr (nsp, np, da, db) \<Rightarrow>
                 if idx < length accA \<and> idx < length accB
                 then upwardAmount m ts tas dA dB T u lst (i + 1) nsp lq
                        (if (u + int i * ts) smod T = 0 then idx + 1 else idx)
                        (accA[idx := accA ! idx + da]) (accB[idx := accB ! idx + db])
                 else Some (Inl Type_error)))) \<and>
   (getTick (l - int i * ts) ts tas = None
      \<or> (\<exists>t. getTick (l - int i * ts) ts tas = Some t \<and> liquidityNet t = 0) \<longrightarrow>
    downwardAmount m ts tas dA dB T l lst i sp lq idx accA accB =
      (if l - int i * ts < lst then Some (Inr (accA, accB))
       else (case step_amounts m dA dB sp lq (l - int i * ts) True False of
               Inl e \<Rightarrow> Some (Inl e)
             | Inr (nsp, np, da, db) \<Rightarrow>
                 if idx < length accA \<and> idx < length accB
                 then downwardAmount m ts tas dA dB T l lst (i + 1) nsp lq
                        (if (l - int i * ts) smod T = 0 then idx + 1 else idx)
                        (accA[idx := accA ! idx + da]) (accB[idx := accB ! idx + db])
                 else Some (Inl Type_error))))"
proof (intro conjI impI)
  assume "getTick (u + int i * ts) ts tas = None
      \<or> (\<exists>t. getTick (u + int i * ts) ts tas = Some t \<and> liquidityNet t = 0)"
  then have e: "(case getTick (u + int i * ts) ts tas of None \<Rightarrow> lq | Some t \<Rightarrow> lq + liquidityNet t) = lq"
    by auto
  show "upwardAmount m ts tas dA dB T u lst i sp lq idx accA accB =
      (if u + int i * ts > lst then Some (Inr (accA, accB))
       else (case step_amounts m dA dB sp lq (u + int i * ts) False True of
               Inl e \<Rightarrow> Some (Inl e)
             | Inr (nsp, np, da, db) \<Rightarrow>
                 if idx < length accA \<and> idx < length accB
                 then upwardAmount m ts tas dA dB T u lst (i + 1) nsp lq
                        (if (u + int i * ts) smod T = 0 then idx + 1 else idx)
                        (accA[idx := accA ! idx + da]) (accB[idx := accB ! idx + db])
                 else Some (Inl Type_error)))"
    by (subst upwardAmount_unfold, unfold e, rule refl)
next
  assume "getTick (l - int i * ts) ts tas = None
      \<or> (\<exists>t. getTick (l - int i * ts) ts tas = Some t \<and> liquidityNet t = 0)"
  then have e: "(case getTick (l - int i * ts) ts tas of None \<Rightarrow> lq | Some t \<Rightarrow> lq - liquidityNet t) = lq"
    by auto
  show "downwardAmount m ts tas dA dB T l lst i sp lq idx accA accB =
      (if l - int i * ts < lst then Some (Inr (accA, accB))
       else (case step_amounts m dA dB sp lq (l - int i * ts) True False of
               Inl e \<Rightarrow> Some (Inl e)
             | Inr (nsp, np, da, db) \<Rightarrow>
                 if idx < length accA \<and> idx < length accB
                 then downwardAmount m ts tas dA dB T l lst (i + 1) nsp lq
                        (if (l - int i * ts) smod T = 0 then idx + 1 else idx)
                        (accA[idx := accA ! idx + da]) (accB[idx := accB ! idx + db])
                 else Some (Inl Type_error)))"
    by (subst downwardAmount_unfold, unfold e, rule refl)
qed

text \<open>
  Witness for C4: spacing 64, no bucket loaded. The upward loop from candidate 5504 goes
  on to iteration 1 with liquidity 1000000 and runs to the bound 5632; the downward
  loop from candidate 5440 goes on to iteration 1 and runs to the bound 5312.
\<close>

theorem unknown_tick_zero_fill_witness:
  "getTick (5504 + int 0 * 64) 64 [None] = None \<and>
   upwardAmount sample_sdk 64 [None] 6 6 5632 5504 5632 0 1005500 1000000 0 [0] [0] =
     upwardAmount sample_sdk 64 [None] 6 6 5632 5504 5632 1 1005504 1000000 0
       [4000000] [4000000] \<and>
   upwardAmount sample_sdk 64 [None] 6 6 5632 5504 5632 0 1005500 1000000 0 [0] [0] =
     Some (Inr ([132000000], [132000000])) \<and>
   getTick (5440 - int 0 * 64) 64 [None] = None \<and>
   downwardAmount sample_sdk 64 [None] 6 6 5632 5440 5312 0 1005500 1000000 0 [0] [0] =
     downwardAmount sample_sdk 64 [None] 6 6 5632 5440 5312 1 1005440 1000000 0
       [60000000] [60000000] \<and>
   downwardAmount sample_sdk 64 [None] 6 6 5632 5440 5312 0 1005500 1000000 0 [0] [0] =
     Some (Inr ([188000000], [188000000]))"
proof -
  have st: "step_amounts sample_sdk 6 6 1005500 1000000 5504 False True =
      Inr (1005504, 5504, 4000000, 4000000)"
    "step_amounts sample_sdk 6 6 1005500 1000000 5440 True False =
      Inr (1005440, 5440, 60000000, 60000000)"
    by (simp_all add: step_amounts_def sample_sdk_def)
  have sm: "(5504::int) smod 5632 \<noteq> 0" "(5440::int) smod 5632 \<noteq> 0"
    by (simp_all add: smod_zero_iff_dvd)
  have up: "upwardAmount sample_sdk 64 [None] 6 6 5632 5504 5632 0 1005500 1000000 0 [0] [0] =
     Some (Inr ([132000000], [132000000]))"
    by code_simp
  have dn: "downwardAmount sample_sdk 64 [None] 6 6 5632 5440 5312 0 1005500 1000000 0 [0] [0] =
     Some (Inr ([188000000], [188000000]))"
    by code_simp
  show ?thesis
    using unknown_tick_zero_fill [where u = 5504 and i = 0 and ts = 64 and tas = "[None]"
        and m = sample_sdk and dA = 6 and dB = 6 and T = 5632 and lst = 5632 and sp = 1005500
        and lq = 1000000 and idx = 0 and accA = "[0]" and accB = "[0]"]
      unknown_tick_zero_fill [where l = 5440 and i = 0 and ts = 64 and tas = "[None]"
        and m = sample_sdk and dA = 6 and dB = 6 and T = 5632 and lst = 5312 and sp = 1005500
        and lq = 1000000 and idx = 0 and accA = "[0]" and accB = "[0]"] st sm up dn
    by simp
qed

section \<open>The caller\<close>

text \<open>
  C9. When the call of \<open>listTickArrayTradableAmounts\<close> comes back (with a result or an
  exception), \<open>getWhirlpoolInfo\<close> goes on with a pair of reports: for each simulator, the
  explicit error report (no upward record, no downward record, error flag set) if that
  simulator raised, and that simulator's own result if it returned, whatever the other
  simulator did.
\<close>

theorem simulator_exception_caught:
  assumes "listTickArrayTradableAmounts m wp idxs pks tas dA dB = Some b"
  shows "\<exists>t a. getWhirlpoolInfo_tradable m wp idxs pks tas dA dB = Some (t, a) \<and>
           (isl (listTradableAmounts m wp tas dA dB) \<longrightarrow>
              t = \<lparr>upward = [], downward = [], error = True\<rparr>) \<and>
           (\<forall>r. listTradableAmounts m wp tas dA dB = Inr r \<longrightarrow> t = r) \<and>
           (isl b \<longrightarrow> a = \<lparr>upward = [], downward = [], error = True\<rparr>) \<and>
           (\<forall>r. b = Inr r \<longrightarrow> a = r)"
  using assms
  by (cases b; cases "listTradableAmounts m wp tas dA dB")
     (simp_all add: getWhirlpoolInfo_tradable_def)

text \<open>
  Witness for C9. First: current tick 443630 next to the upper tick bound, with a
  collaborator that raises beyond the bound; the per-step simulator raises at tick 443637
  and gets the error report, the per-bucket simulator, which stops at the bound, keeps its
  result. Second: a collaborator that always raises and no loaded bucket; the per-step
  simulator makes no collaborator call and keeps its (empty) result, the per-bucket
  simulator raises and gets the error report.
\<close>

theorem simulator_exception_caught_witness:
  "getWhirlpoolInfo_tradable bounded_sdk
     \<lparr>tickSpacing = 1, tickCurrentIndex = 443630, sqrtPrice = 1443630, liquidity = 1000000\<rparr>
     [443608] [''a''] [Some (zero_array 443608)] 6 6 =
   Some (\<lparr>upward = [], downward = [], error = True\<rparr>,
         \<lparr>upward = [\<lparr>tickArrayPubkey = ''a'', tickArrayStartIndex = 443608,
                     tickArrayStartPrice = 443608, tickArrayData = Some (zero_array 443608),
                     amountA = 6000000, amountB = 6000000\<rparr>],
          downward = [\<lparr>tickArrayPubkey = ''a'', tickArrayStartIndex = 443608,
                     tickArrayStartPrice = 443608, tickArrayData = Some (zero_array 443608),
                     amountA = 22000000, amountB = 22000000\<rparr>],
          error = False\<rparr>) \<and>
   getWhirlpoolInfo_tradable raising_sdk
     \<lparr>tickSpacing = 1, tickCurrentIndex = 100, sqrtPrice = 1000100, liquidity = 1000000\<rparr>
     [88] [''a''] [None] 6 6 =
   Some (\<lparr>upward = [], downward = [], error = False\<rparr>,
         \<lparr>upward = [], downward = [], error = True\<rparr>)"
proof -
  let ?wp1 = "\<lparr>tickSpacing = 1, tickCurrentIndex = 443630, sqrtPrice = 1443630, liquidity = 1000000\<rparr>"
  let ?wp2 = "\<lparr>tickSpacing = 1, tickCurrentIndex = 100, sqrtPrice = 1000100, liquidity = 1000000\<rparr>"
  have s1: "listTradableAmounts bounded_sdk ?wp1 [Some (zero_array 443608)] 6 6 = Inl Sdk_error"
    by code_simp
  have b1: "listTickArrayTradableAmounts bounded_sdk ?wp1 [443608] [''a'']
              [Some (zero_array 443608)] 6 6 =
            Some (Inr \<lparr>upward = [\<lparr>tickArrayPubkey = ''a'', tickArrayStartIndex = 443608,
                     tickArrayStartPrice = 443608, tickArrayData = Some (zero_array 443608),
                     amountA = 6000000, amountB = 6000000\<rparr>],
          downward = [\<lparr>tickArrayPubkey = ''a'', tickArrayStartIndex = 443608,
                     tickArrayStartPrice = 443608, tickArrayData = Some (zero_array 443608),
                     amountA = 22000000, amountB = 22000000\<rparr>],
          error = False\<rparr>)"
    by code_simp
  have s2: "listTradableAmounts raising_sdk ?wp2 [None] 6 6 =
              Inr \<lparr>upward = [], downward = [], error = False\<rparr>"
    by code_simp
  have b2: "listTickArrayTradableAmounts raising_sdk ?wp2 [88] [''a''] [None] 6 6 =
              Some (Inl Sdk_error)"
    by code_simp
  show ?thesis
    using simulator_exception_caught [OF b1] simulator_exception_caught [OF b2] s1 s2
    by auto
qed

end
